theory Spec2Isabelle
  imports Main
begin

section \<open>Records, dates and identifiers\<close>

text \<open>
  Every entity of the application is a JavaScript object with a numeric \<open>id\<close> property
  and further properties that depend on its kind. An entity is modelled as its
  identifier together with the record of the other properties: the merge code is
  generic in the kind (\<^verbatim>\<open>T extends { id: number }\<close>), and so is \<open>'p entity\<close>.
  The property \<open>id\<close> is called \<open>ident\<close> here (\<open>id\<close> is HOL's identity function).
\<close>

record 'p entity =
  ident :: int
  props :: 'p

text \<open>
  \<^verbatim>\<open>new Date(x)\<close> is a time value in milliseconds, or the invalid date (whose time
  value is NaN) when \<open>x\<close> cannot be read as a date.
\<close>

datatype jsdate = Time int | InvalidDate

text \<open>
  \<^verbatim>\<open>localDate > remoteDate\<close> compares the two time values as numbers; every comparison
  with NaN is false.
\<close>

fun date_gt :: "jsdate \<Rightarrow> jsdate \<Rightarrow> bool" where
  "date_gt (Time a) (Time b) = (b < a)"
| "date_gt _ _ = False"

text \<open>
  A property of an object that the type allows to be missing or \<^verbatim>\<open>null\<close>:
  \<open>Absent\<close> (the object has no such property), \<open>Undefined\<close> (the property is there
  and its value is \<^verbatim>\<open>undefined\<close>), \<open>Null\<close>, or a value. The operator
  \<^verbatim>\<open>in\<close> and the spread of an object tell \<open>Absent\<close> from \<open>Undefined\<close>.
\<close>

datatype 'a jsprop = Absent | Undefined | Null | Val 'a

text \<open>
  Numbers are IEEE doubles. \<open>jsNumber n\<close> is the double nearest to the integer
  \<open>n\<close>, a tie going to the even significand: the value of an arithmetic expression
  whose exact result is \<open>n\<close>. Every integer up to \<open>2 ^ 53\<close> in magnitude is a double;
  beyond, \<open>bitLength\<close> gives the spacing of the doubles. (Results beyond the largest
  double are not modelled.)
\<close>

function bitLength :: "int \<Rightarrow> nat" where
  "bitLength a = (if a \<le> 0 then 0 else Suc (bitLength (a div 2)))"
  by pat_completeness auto
termination
  by (relation "measure nat") auto

declare bitLength.simps [simp del]

definition jsNumber :: "int \<Rightarrow> int" where
  "jsNumber n =
     (let a = \<bar>n\<bar>
      in if a \<le> 2 ^ 53 then n
         else
           let ulp = 2 ^ (bitLength a - 53);
               q = a div ulp;
               r = a mod ulp;
               m = (if 2 * r < ulp \<or> (2 * r = ulp \<and> even q) then q else q + 1)
           in sgn n * (m * ulp))"

text \<open>\<^verbatim>\<open>throw new Error(message)\<close>, and the rejections of the network.\<close>

datatype error = Error string

text \<open>The exceptions of IndexedDB that the code modelled here can meet.\<close>

datatype domError = InvalidStateError | ConstraintError

text \<open>What a function of \<^verbatim>\<open>utils/storage.ts\<close> throws: an error of its own, or one of IndexedDB.\<close>

datatype thrown = Thrown error | DOMException domError

section \<open>The reconciler: \<open>mergeData\<close> and \<open>downloadAndMerge\<close>\<close>

text \<open>
  \<^verbatim>\<open>items.forEach(item => { if (item.id > 0) map.set(item.id, item) })\<close>: a later item
  with the same identifier replaces an earlier one.
\<close>

definition positiveItemMap :: "'p entity list \<Rightarrow> (int \<rightharpoonup> 'p entity)" where
  "positiveItemMap items =
     fold (\<lambda>item m. if 0 < ident item then m(ident item \<mapsto> item) else m) items Map.empty"

text \<open>\<^verbatim>\<open>localItems.forEach(item => localItemMap.set(item.id, item))\<close>, without the test.\<close>

definition allItemMap :: "'p entity list \<Rightarrow> (int \<rightharpoonup> 'p entity)" where
  "allItemMap items = fold (\<lambda>item m. m(ident item \<mapsto> item)) items Map.empty"

text \<open>
  The body of the first loop, which pushes one record for each local item. The argument
  \<open>upd\<close> reads the property \<open>updatedAt\<close> as a date: \<open>None\<close> when the object has no
  such property (\<^verbatim>\<open>'updatedAt' in item\<close> is false), and \<open>Some (new Date(item.updatedAt))\<close>
  otherwise.
\<close>

definition mergeLocalItem ::
  "('p entity \<Rightarrow> jsdate option) \<Rightarrow> (int \<rightharpoonup> 'p entity) \<Rightarrow> 'p entity \<Rightarrow> 'p entity" where
  "mergeLocalItem upd remoteItemMap localItem =
     (if 0 < ident localItem then
        (case remoteItemMap (ident localItem) of
           Some remoteItem \<Rightarrow>
             (case (upd localItem, upd remoteItem) of
                (Some localDate, Some remoteDate) \<Rightarrow>
                  (if date_gt localDate remoteDate then localItem else remoteItem)
              | _ \<Rightarrow> localItem)
         | None \<Rightarrow> localItem)
      else localItem)"

text \<open>\<open>mergeData\<close> of \<^verbatim>\<open>syncWithSupabase\<close>.\<close>

definition mergeData ::
  "('p entity \<Rightarrow> jsdate option) \<Rightarrow> 'p entity list \<Rightarrow> 'p entity list \<Rightarrow> 'p entity list" where
  "mergeData upd localItems remoteItems =
     (if remoteItems = [] then localItems
      else
        let localItemMap = positiveItemMap localItems;
            remoteItemMap = positiveItemMap remoteItems
        in map (mergeLocalItem upd remoteItemMap) localItems @
           filter (\<lambda>remoteItem. 0 < ident remoteItem \<and> localItemMap (ident remoteItem) = None)
             remoteItems)"

text \<open>
  \<open>downloadAndMerge\<close> of \<^verbatim>\<open>syncWithWebDAV\<close>. The downloaded value is \<open>None\<close> when
  \<^verbatim>\<open>downloadFromWebDAV\<close> returns \<^verbatim>\<open>null\<close> (no file, or any error of the download).
  An empty array is not \<^verbatim>\<open>null\<close> and goes through the loops.
\<close>

definition downloadAndMerge ::
  "('p entity \<Rightarrow> jsdate option) \<Rightarrow> 'p entity list option \<Rightarrow> 'p entity list \<Rightarrow> 'p entity list" where
  "downloadAndMerge upd downloaded localItems =
     (case downloaded of
        None \<Rightarrow> localItems
      | Some remoteItems \<Rightarrow>
          let localItemMap = allItemMap localItems;
              remoteItemMap = positiveItemMap remoteItems
          in map (mergeLocalItem upd remoteItemMap) localItems @
             filter (\<lambda>remoteItem. 0 < ident remoteItem \<and> localItemMap (ident remoteItem) = None)
               remoteItems)"

section \<open>Entity kinds\<close>

text \<open>The properties of a note that the reconciler and the folder cascade read.\<close>

record note_core =
  folderId :: "int jsprop"
  updatedAt :: "jsdate jsprop"


text \<open>A link between a note and a tag (\<^verbatim>\<open>NoteTag\<close>).\<close>

record link_props =
  noteId :: int
  tagId :: int

text \<open>
  \<^verbatim>\<open>'updatedAt' in item\<close> and \<^verbatim>\<open>new Date(item.updatedAt)\<close> on a note:
  \<^verbatim>\<open>new Date(undefined)\<close> is the invalid date and \<^verbatim>\<open>new Date(null)\<close> is the epoch.
\<close>

definition noteUpdatedAt :: "'a note_core_scheme entity \<Rightarrow> jsdate option" where
  "noteUpdatedAt n =
     (case updatedAt (props n) of
        Absent \<Rightarrow> None
      | Undefined \<Rightarrow> Some InvalidDate
      | Null \<Rightarrow> Some (Time 0)
      | Val d \<Rightarrow> Some d)"

text \<open>Folders, tags and links carry no \<open>updatedAt\<close> property.\<close>

definition noUpdatedAt :: "'p entity \<Rightarrow> jsdate option" where
  "noUpdatedAt x = None"

section \<open>Object stores keyed by \<open>id\<close>\<close>

text \<open>
  An IndexedDB object store with key path \<^verbatim>\<open>id\<close> holds at most one record for each
  key and lists its records in the order of their keys (\<^verbatim>\<open>getAll\<close>). It is modelled
  as the list of its records in key order. \<^verbatim>\<open>put\<close> replaces the record with the same
  key or inserts the new record at its place.
\<close>

fun storePut :: "'p entity \<Rightarrow> 'p entity list \<Rightarrow> 'p entity list" where
  "storePut x [] = [x]"
| "storePut x (y # ys) =
     (if ident x < ident y then x # y # ys
      else if ident x = ident y then x # ys
      else y # storePut x ys)"

definition storeGet :: "int \<Rightarrow> 'p entity list \<Rightarrow> 'p entity option" where
  "storeGet k xs = find (\<lambda>x. ident x = k) xs"

definition storeDelete :: "int \<Rightarrow> 'p entity list \<Rightarrow> 'p entity list" where
  "storeDelete k xs = filter (\<lambda>x. ident x \<noteq> k) xs"

text \<open>The records of a store are in key order, with no key twice.\<close>

definition keyed :: "'p entity list \<Rightarrow> bool" where
  "keyed xs = sorted_wrt (<) (map ident xs)"

text \<open>
  An object handed to a store before it has its key: \<^verbatim>\<open>T extends { id?: number }\<close> and
  \<^verbatim>\<open>Partial<Note>\<close>. \<open>draftId = None\<close> is an object without the property \<open>id\<close>.
\<close>

record 'p draft =
  draftId :: "int option"
  draftProps :: 'p

text \<open>No two links of a table join the same note and tag.\<close>

definition noDuplicateLinks :: "link_props entity list \<Rightarrow> bool" where
  "noDuplicateLinks links = distinct (map (\<lambda>l. (noteId (props l), tagId (props l))) links)"

section \<open>The class \<open>IndexedDBStorage\<close> of \<^verbatim>\<open>db.ts\<close>\<close>

text \<open>
  One object store of the database \<^verbatim>\<open>notecraft_db\<close> together with its entry
  \<^verbatim>\<open>this.idCounters[storeName]\<close>.
\<close>

record 'p dbStore =
  rows :: "'p entity list"
  idCounter :: int

text \<open>
  \<^verbatim>\<open>return this.idCounters[storeName]++\<close>: the old value is returned, and the
  double nearest to the old value plus one is stored.
\<close>

definition getNextId :: "'p dbStore \<Rightarrow> int \<times> 'p dbStore" where
  "getNextId s = (idCounter s, s\<lparr>idCounter := jsNumber (idCounter s + 1)\<rparr>)"

text \<open>The body of the loop of \<open>loadIdCounters\<close>, for one store.\<close>

definition loadIdCounters :: "'p dbStore \<Rightarrow> 'p dbStore" where
  "loadIdCounters s =
     (if length (rows s) > 0
      then let maxId = Max (set (map ident (rows s))) in s\<lparr>idCounter := jsNumber (maxId + 1)\<rparr>
      else s)"

text \<open>
  A fresh instance over a database that already holds \<open>persisted\<close>: the constructor sets
  the counter to 1, and \<open>init\<close> runs \<open>loadIdCounters\<close>.
\<close>

definition initStore :: "'p entity list \<Rightarrow> 'p dbStore" where
  "initStore persisted = loadIdCounters \<lparr>rows = persisted, idCounter = 1\<rparr>"

text \<open>The identifiers that \<open>n\<close> successive calls of \<open>getNextId\<close> return.\<close>

fun nextIds :: "nat \<Rightarrow> 'p dbStore \<Rightarrow> int list" where
  "nextIds 0 s = []"
| "nextIds (Suc n) s = (case getNextId s of (i, s') \<Rightarrow> i # nextIds n s')"

text \<open>
  \<open>addItem\<close>: the identifier is assigned when it is \<^verbatim>\<open>undefined\<close> or \<open>0\<close>, and
  \<^verbatim>\<open>put\<close> stores the object under it. Of the four stores only \<^verbatim>\<open>noteTags\<close> has a
  unique index (over the pair of references), which rejects a \<^verbatim>\<open>put\<close> that gives a
  second link the pair of another; its caller modelled here, \<open>addTagToNote\<close>, puts a
  pair that no link of the store has.
\<close>

definition addItem :: "'p draft \<Rightarrow> 'p dbStore \<Rightarrow> 'p entity \<times> 'p dbStore" where
  "addItem item s =
     (let (i, s1) = (case draftId item of
                       None \<Rightarrow> getNextId s
                     | Some k \<Rightarrow> if k = 0 then getNextId s else (k, s));
          stored = \<lparr>ident = i, props = draftProps item\<rparr>
      in (stored, s1\<lparr>rows := storePut stored (rows s1)\<rparr>))"

text \<open>
  \<open>updateItem\<close>. The argument \<^verbatim>\<open>updates: Partial<T>\<close> is given by what spreading it
  over a record does: \<open>spread existing\<close> is \<^verbatim>\<open>{ ...existing, ...updates }\<close>.
\<close>

definition updateItem ::
  "int \<Rightarrow> ('p entity \<Rightarrow> 'p entity) \<Rightarrow> 'p dbStore \<Rightarrow> 'p entity option \<times> 'p dbStore" where
  "updateItem k spread s =
     (case storeGet k (rows s) of
        None \<Rightarrow> (None, s)
      | Some existingItem \<Rightarrow>
          let updatedItem = spread existingItem
          in (Some updatedItem, s\<lparr>rows := storePut updatedItem (rows s)\<rparr>))"

definition deleteItem :: "int \<Rightarrow> 'p dbStore \<Rightarrow> bool \<times> 'p dbStore" where
  "deleteItem k s = (True, s\<lparr>rows := storeDelete k (rows s)\<rparr>)"

text \<open>The four object stores of \<^verbatim>\<open>STORES\<close>.\<close>

record ('n, 'f, 't) db =
  db_folders :: "'f dbStore"
  db_notes :: "'n dbStore"
  db_tags :: "'t dbStore"
  db_noteTags :: "link_props dbStore"

text \<open>
  \<open>getNotesByFolder\<close>: \<^verbatim>\<open>allNotes.filter(note => note.folderId === folderId)\<close>. The
  tags that \<open>getAllNotes\<close> attaches to each note are read, not written, and the
  callers modelled here use the identifier of the note only.
\<close>

definition getNotesByFolder ::
  "int \<Rightarrow> ('n note_core_scheme, 'f, 't) db \<Rightarrow> 'n note_core_scheme entity list" where
  "getNotesByFolder fid d = filter (\<lambda>note. folderId (props note) = Val fid) (rows (db_notes d))"

text \<open>
  \<open>updateNote\<close>: \<^verbatim>\<open>updates = { ...note, updatedAt: new Date() }\<close>. The clock reading
  \<open>now\<close> is an input.
\<close>

definition updateNote ::
  "int \<Rightarrow> int \<Rightarrow> ('n note_core_scheme entity \<Rightarrow> 'n note_core_scheme entity) \<Rightarrow>
   ('n note_core_scheme, 'f, 't) db \<Rightarrow>
   'n note_core_scheme entity option \<times> ('n note_core_scheme, 'f, 't) db" where
  "updateNote now k spread d =
     (case updateItem k
             (\<lambda>existing. (spread existing)
                \<lparr>props := (props (spread existing))\<lparr>updatedAt := Val (Time now)\<rparr>\<rparr>)
             (db_notes d) of
        (r, s) \<Rightarrow> (r, d\<lparr>db_notes := s\<rparr>))"

text \<open>Spreading \<^verbatim>\<open>{ folderId: null }\<close> over a note.\<close>

definition folderIdNull :: "'n note_core_scheme entity \<Rightarrow> 'n note_core_scheme entity" where
  "folderIdNull existing = existing\<lparr>props := (props existing)\<lparr>folderId := Null\<rparr>\<rparr>"

text \<open>
  What \<^verbatim>\<open>updateNote(note.id, { folderId: null })\<close> writes in place of the note
  \<open>existing\<close>.
\<close>

definition withoutFolder ::
  "int \<Rightarrow> 'n note_core_scheme entity \<Rightarrow> 'n note_core_scheme entity" where
  "withoutFolder now existing =
     existing\<lparr>props := (props existing)\<lparr>folderId := Null, updatedAt := Val (Time now)\<rparr>\<rparr>"

text \<open>
  \<open>deleteFolder\<close> of \<^verbatim>\<open>db.ts\<close>. Each \<open>updateNote\<close> of the loop reads the clock:
  \<open>clock k\<close> is the reading when the note with the identifier \<open>k\<close> is updated.
\<close>

definition deleteFolder_db ::
  "(int \<Rightarrow> int) \<Rightarrow> int \<Rightarrow> ('n note_core_scheme, 'f, 't) db \<Rightarrow>
   bool \<times> ('n note_core_scheme, 'f, 't) db" where
  "deleteFolder_db clock fid d =
     (let notes = getNotesByFolder fid d;
          d1 = fold (\<lambda>note acc. snd (updateNote (clock (ident note)) (ident note) folderIdNull acc))
                 notes d
      in (case deleteItem fid (db_folders d1) of
            (ok, s) \<Rightarrow> (ok, d1\<lparr>db_folders := s\<rparr>)))"

text \<open>\<open>addTagToNote\<close> of \<^verbatim>\<open>db.ts\<close>.\<close>

definition addTagToNote_db :: "int \<Rightarrow> int \<Rightarrow> ('n, 'f, 't) db \<Rightarrow> ('n, 'f, 't) db" where
  "addTagToNote_db nId tId d =
     (let allNoteTags = rows (db_noteTags d);
          existingRelation =
            find (\<lambda>nt. noteId (props nt) = nId \<and> tagId (props nt) = tId) allNoteTags
      in (case existingRelation of
            None \<Rightarrow>
              d\<lparr>db_noteTags :=
                  snd (addItem \<lparr>draftId = Some 0, draftProps = \<lparr>noteId = nId, tagId = tId\<rparr>\<rparr>
                         (db_noteTags d))\<rparr>
          | Some r \<Rightarrow> d))"

section \<open>The class \<open>MemStorage\<close> of \<^verbatim>\<open>server/storage.ts\<close>\<close>

text \<open>
  \<^verbatim>\<open>Map<number, NoteTag>\<close> lists its entries in the order of their first insertion;
  \<^verbatim>\<open>set\<close> on a key that is present replaces the value in place.
\<close>

fun mapSet :: "'p entity \<Rightarrow> 'p entity list \<Rightarrow> 'p entity list" where
  "mapSet x [] = [x]"
| "mapSet x (y # ys) = (if ident y = ident x then x # ys else y # mapSet x ys)"

record memStorage =
  mem_noteTags :: "link_props entity list"
  noteTagIdCounter :: int

text \<open>\<open>addTagToNote\<close> of the server; \<^verbatim>\<open>this.noteTagIdCounter++\<close> is a double too.\<close>

definition addTagToNote_mem ::
  "int \<Rightarrow> int \<Rightarrow> memStorage \<Rightarrow> link_props entity \<times> memStorage" where
  "addTagToNote_mem nId tId m =
     (case find (\<lambda>nt. noteId (props nt) = nId \<and> tagId (props nt) = tId) (mem_noteTags m) of
        Some existing \<Rightarrow> (existing, m)
      | None \<Rightarrow>
          let i = noteTagIdCounter m;
              noteTag = \<lparr>ident = i, props = \<lparr>noteId = nId, tagId = tId\<rparr>\<rparr>
          in (noteTag, \<lparr>mem_noteTags = mapSet noteTag (mem_noteTags m),
                        noteTagIdCounter = jsNumber (i + 1)\<rparr>))"

section \<open>The local database of \<^verbatim>\<open>utils/storage.ts\<close>\<close>

text \<open>
  The object stores of \<^verbatim>\<open>notekeeper-db\<close> are created with \<^verbatim>\<open>autoIncrement: true\<close>:
  each has a key generator, whose current number starts at 1. \<^verbatim>\<open>put\<close> of an object
  that has an \<open>id\<close> stores it under that key; when the key, or \<open>2 ^ 53\<close> if that is
  smaller, is not below the generator's number, the number becomes that value plus one.
\<close>

record 'p lsStore =
  lsRows :: "'p entity list"
  keyGen :: int

definition lsPutEntity :: "'p entity \<Rightarrow> 'p lsStore \<Rightarrow> 'p lsStore" where
  "lsPutEntity x s =
     (let v = min (ident x) (2 ^ 53)
      in \<lparr>lsRows = storePut x (lsRows s),
          keyGen = (if keyGen s \<le> v then v + 1 else keyGen s)\<rparr>)"

text \<open>
  \<^verbatim>\<open>put\<close> of an object without \<open>id\<close> takes the generator's number as the key, writes
  it into the object and advances the generator; when the number is above \<open>2 ^ 53\<close> the
  generator is exhausted and \<^verbatim>\<open>put\<close> fails with a \<^verbatim>\<open>ConstraintError\<close>. The key is
  returned.
\<close>

definition lsPut :: "'p draft \<Rightarrow> 'p lsStore \<Rightarrow> domError + int \<times> 'p lsStore" where
  "lsPut item s =
     (case draftId item of
        None \<Rightarrow>
          let k = keyGen s
          in if 2 ^ 53 < k then Inl ConstraintError
             else Inr (k, \<lparr>lsRows = storePut \<lparr>ident = k, props = draftProps item\<rparr> (lsRows s),
                           keyGen = k + 1\<rparr>)
      | Some k \<Rightarrow> Inr (k, lsPutEntity \<lparr>ident = k, props = draftProps item\<rparr> s))"

definition lsDelete :: "int \<Rightarrow> 'p lsStore \<Rightarrow> 'p lsStore" where
  "lsDelete k s = s\<lparr>lsRows := storeDelete k (lsRows s)\<rparr>"

text \<open>
  The database: the four entity stores, and the store \<^verbatim>\<open>metadata\<close>, of which the
  code modelled here writes the time of the last synchronisation under a key.
\<close>

record ('n, 'f, 't) lsDb =
  ls_notes :: "'n lsStore"
  ls_folders :: "'f lsStore"
  ls_tags :: "'t lsStore"
  ls_noteTags :: "link_props lsStore"
  ls_metadata :: "string \<rightharpoonup> int"








text \<open>
  \<open>deleteFolder\<close> of \<^verbatim>\<open>utils/storage.ts\<close> opens one transaction \<open>tx\<close> and deletes
  through it. A transaction of IndexedDB finishes when control returns to the event loop
  and none of its requests is pending, and \<^verbatim>\<open>tx.objectStore\<close> on a finished
  transaction throws an \<^verbatim>\<open>InvalidStateError\<close>. The flag \<open>txFinished\<close> says whether
  \<open>tx\<close> has finished.
\<close>

definition txObjectStore :: "bool \<Rightarrow> domError + unit" where
  "txObjectStore txFinished = (if txFinished then Inl InvalidStateError else Inr ())"

text \<open>
  \<^verbatim>\<open>await database.getAllFromIndex(...)\<close> inside the loop is a request of another
  transaction. Every request of \<open>tx\<close> made before has been awaited, so none is pending:
  \<open>tx\<close> has finished when the await returns.
\<close>

definition awaitOutside :: "bool \<Rightarrow> bool" where
  "awaitOutside txFinished = True"

text \<open>The inner loop: \<^verbatim>\<open>await tx.objectStore('noteTags').delete(noteTag.id)\<close>.\<close>

fun deleteNoteTagsTx ::
  "bool \<Rightarrow> link_props entity list \<Rightarrow> ('n, 'f, 't) lsDb \<Rightarrow> domError option \<times> ('n, 'f, 't) lsDb" where
  "deleteNoteTagsTx txFinished [] st = (None, st)"
| "deleteNoteTagsTx txFinished (noteTag # rest) st =
     (case txObjectStore txFinished of
        Inl e \<Rightarrow> (Some e, st)
      | Inr u \<Rightarrow>
          deleteNoteTagsTx txFinished rest
            (st\<lparr>ls_noteTags := lsDelete (ident noteTag) (ls_noteTags st)\<rparr>))"

text \<open>
  The outer loop, over the notes of the folder: the links of the note are read and
  deleted, then the note. The result is the error thrown, or the flag of \<open>tx\<close> after
  the loop.
\<close>

fun deleteNotesTx ::
  "bool \<Rightarrow> 'n entity list \<Rightarrow> ('n, 'f, 't) lsDb \<Rightarrow> (domError + bool) \<times> ('n, 'f, 't) lsDb" where
  "deleteNotesTx txFinished [] st = (Inr txFinished, st)"
| "deleteNotesTx txFinished (note # rest) st =
     (let noteTags = filter (\<lambda>nt. noteId (props nt) = ident note) (lsRows (ls_noteTags st));
          fin = awaitOutside txFinished
      in (case deleteNoteTagsTx fin noteTags st of
            (Some e, st1) \<Rightarrow> (Inl e, st1)
          | (None, st1) \<Rightarrow>
              (case txObjectStore fin of
                 Inl e \<Rightarrow> (Inl e, st1)
               | Inr u \<Rightarrow>
                   deleteNotesTx fin rest (st1\<lparr>ls_notes := lsDelete (ident note) (ls_notes st1)\<rparr>))))"

text \<open>
  \<open>deleteFolder\<close>: the notes of the folder are read before \<open>tx\<close> is opened; after
  the loop the folder is deleted through \<open>tx\<close>. The result is \<open>true\<close> or the error
  thrown.
\<close>

definition deleteFolder_ls ::
  "int \<Rightarrow> ('n note_core_scheme, 'f, 't) lsDb \<Rightarrow>
   (domError + bool) \<times> ('n note_core_scheme, 'f, 't) lsDb" where
  "deleteFolder_ls fid st =
     (let notes = filter (\<lambda>n. folderId (props n) = Val fid) (lsRows (ls_notes st))
      in (case deleteNotesTx False notes st of
            (Inl e, st1) \<Rightarrow> (Inl e, st1)
          | (Inr fin, st1) \<Rightarrow>
              (case txObjectStore fin of
                 Inl e \<Rightarrow> (Inl e, st1)
               | Inr u \<Rightarrow> (Inr True, st1\<lparr>ls_folders := lsDelete fid (ls_folders st1)\<rparr>))))"

text \<open>
  \<open>addTagToNote\<close> of \<^verbatim>\<open>utils/storage.ts\<close>: an existing link is an error, and so is a
  failure of \<^verbatim>\<open>put\<close>.
\<close>

definition addTagToNote_ls ::
  "int \<Rightarrow> int \<Rightarrow> ('n, 'f, 't) lsDb \<Rightarrow> (thrown + link_props entity option) \<times> ('n, 'f, 't) lsDb" where
  "addTagToNote_ls nId tId st =
     (let existingNoteTags = filter (\<lambda>nt. noteId (props nt) = nId) (lsRows (ls_noteTags st));
          exists = list_ex (\<lambda>nt. tagId (props nt) = tId) existingNoteTags
      in if exists then (Inl (Thrown (Error ''This tag is already added to the note'')), st)
         else (case lsPut \<lparr>draftId = None, draftProps = \<lparr>noteId = nId, tagId = tId\<rparr>\<rparr>
                       (ls_noteTags st) of
                 Inl e \<Rightarrow> (Inl (DOMException e), st)
               | Inr (k, s) \<Rightarrow> (Inr (storeGet k (lsRows s)), st\<lparr>ls_noteTags := s\<rparr>)))"

text \<open>The result of \<open>exportAllData\<close>.\<close>

record ('n, 'f, 't) allData =
  notes_all :: "'n entity list"
  folders_all :: "'f entity list"
  tags_all :: "'t entity list"
  noteTags_all :: "link_props entity list"
  metadata_all :: "string \<rightharpoonup> int"

definition exportAllData :: "('n, 'f, 't) lsDb \<Rightarrow> ('n, 'f, 't) allData" where
  "exportAllData st =
     \<lparr>notes_all = lsRows (ls_notes st), folders_all = lsRows (ls_folders st),
      tags_all = lsRows (ls_tags st), noteTags_all = lsRows (ls_noteTags st),
      metadata_all = ls_metadata st\<rparr>"

text \<open>
  \<^verbatim>\<open>remoteData\<close> and \<^verbatim>\<open>mergedData\<close>: each array may be \<^verbatim>\<open>undefined\<close>. The argument
  of \<open>importAllData\<close> has this type; its optional \<^verbatim>\<open>metadata\<close> is never passed by the
  synchronisation and is left out.
\<close>

record ('n, 'f, 't) partialData =
  notesOpt :: "'n entity list option"
  foldersOpt :: "'f entity list option"
  tagsOpt :: "'t entity list option"
  noteTagsOpt :: "link_props entity list option"

text \<open>\<^verbatim>\<open>if (data.xs && data.xs.length > 0) for (const x of data.xs) await store.put(x)\<close>\<close>

definition putAll :: "'p entity list option \<Rightarrow> 'p lsStore \<Rightarrow> 'p lsStore" where
  "putAll items s =
     (case items of
        None \<Rightarrow> s
      | Some xs \<Rightarrow> if length xs > 0 then fold lsPutEntity xs s else s)"

definition importAllData ::
  "('n, 'f, 't) partialData \<Rightarrow> ('n, 'f, 't) lsDb \<Rightarrow> ('n, 'f, 't) lsDb" where
  "importAllData data st =
     st\<lparr>ls_folders := putAll (foldersOpt data) (ls_folders st),
        ls_tags := putAll (tagsOpt data) (ls_tags st),
        ls_notes := putAll (notesOpt data) (ls_notes st),
        ls_noteTags := putAll (noteTagsOpt data) (ls_noteTags st)\<rparr>"

text \<open>
  What a store holds under the key \<open>k\<close> once the records \<open>imported\<close> have been put
  into it one after the other: the last imported record with that identifier, or, when
  there is none, what the store held \<open>before\<close>.
\<close>

definition heldAfterImport ::
  "int \<Rightarrow> 'p entity list \<Rightarrow> 'p entity list \<Rightarrow> 'p entity option" where
  "heldAfterImport k imported before =
     (case find (\<lambda>x. ident x = k) (rev imported) of
        Some x \<Rightarrow> Some x
      | None \<Rightarrow> storeGet k before)"

text \<open>\<^verbatim>\<open>saveMetadata(key, { lastSyncTime: new Date() })\<close>\<close>

definition saveMetadata :: "string \<Rightarrow> int \<Rightarrow> ('n, 'f, 't) lsDb \<Rightarrow> ('n, 'f, 't) lsDb" where
  "saveMetadata key now st = st\<lparr>ls_metadata := (ls_metadata st)(key \<mapsto> now)\<rparr>"

section \<open>Synchronisation passes\<close>

text \<open>The optional argument \<^verbatim>\<open>dataType\<close>; \<open>None\<close> is a full pass.\<close>

datatype dataType = Notes | Folders | Tags

text \<open>\<^verbatim>\<open>!dataType || dataType === kind\<close>\<close>

definition wanted :: "dataType option \<Rightarrow> dataType \<Rightarrow> bool" where
  "wanted dt kind = (dt = None \<or> dt = Some kind)"

subsection \<open>\<open>syncWithSupabase\<close>\<close>

text \<open>
  What the API answers during one pass: the body of each \<^verbatim>\<open>GET\<close>, or the error that
  \<^verbatim>\<open>apiRequest\<close> throws, and for each \<^verbatim>\<open>POST /api/supabase/sync\<close> the error it throws,
  if any.
\<close>

record ('n, 'f, 't) supabaseApi =
  getNotes :: "error + 'n entity list"
  getNoteTags :: "error + link_props entity list"
  getFolders :: "error + 'f entity list"
  getTags :: "error + 't entity list"
  postNotes :: "error option"
  postFolders :: "error option"
  postTags :: "error option"

text \<open>The requests that fill \<^verbatim>\<open>remoteData\<close>, in the order of the code.\<close>

definition fetchSupabase ::
  "dataType option \<Rightarrow> ('n, 'f, 't) supabaseApi \<Rightarrow> error + ('n, 'f, 't) partialData" where
  "fetchSupabase dt api =
     (case (if wanted dt Notes
            then (case getNotes api of
                    Inl e \<Rightarrow> Inl e
                  | Inr ns \<Rightarrow> (case getNoteTags api of
                                 Inl e \<Rightarrow> Inl e
                               | Inr ls \<Rightarrow> Inr (Some ns, Some ls)))
            else Inr (None, None)) of
        Inl e \<Rightarrow> Inl e
      | Inr (ns, ls) \<Rightarrow>
          (case (if wanted dt Folders then map_sum (\<lambda>e. e) Some (getFolders api) else Inr None) of
             Inl e \<Rightarrow> Inl e
           | Inr fs \<Rightarrow>
               (case (if wanted dt Tags then map_sum (\<lambda>e. e) Some (getTags api) else Inr None) of
                  Inl e \<Rightarrow> Inl e
                | Inr ts \<Rightarrow>
                    Inr \<lparr>notesOpt = ns, foldersOpt = fs, tagsOpt = ts, noteTagsOpt = ls\<rparr>)))"

text \<open>\<^verbatim>\<open>remoteData.xs || []\<close>\<close>

definition orEmpty :: "'a list option \<Rightarrow> 'a list" where
  "orEmpty xs = (case xs of None \<Rightarrow> [] | Some ys \<Rightarrow> ys)"

text \<open>\<^verbatim>\<open>mergedData\<close> of \<open>syncWithSupabase\<close>.\<close>

definition mergedSupabase ::
  "dataType option \<Rightarrow> ('n note_core_scheme, 'f, 't) allData \<Rightarrow>
   ('n note_core_scheme, 'f, 't) partialData \<Rightarrow> ('n note_core_scheme, 'f, 't) partialData" where
  "mergedSupabase dt localData remoteData =
     \<lparr>notesOpt = (if wanted dt Notes
                  then Some (mergeData noteUpdatedAt (notes_all localData) (orEmpty (notesOpt remoteData)))
                  else None),
      foldersOpt = (if wanted dt Folders
                    then Some (mergeData noUpdatedAt (folders_all localData)
                                 (orEmpty (foldersOpt remoteData)))
                    else None),
      tagsOpt = (if wanted dt Tags
                 then Some (mergeData noUpdatedAt (tags_all localData) (orEmpty (tagsOpt remoteData)))
                 else None),
      noteTagsOpt = (if wanted dt Notes
                     then Some (mergeData noUpdatedAt (noteTags_all localData)
                                  (orEmpty (noteTagsOpt remoteData)))
                     else None)\<rparr>"

text \<open>The uploads, in the order of the code: the first error, if any.\<close>

definition uploadSupabase :: "dataType option \<Rightarrow> ('n, 'f, 't) supabaseApi \<Rightarrow> error option" where
  "uploadSupabase dt api =
     (if wanted dt Notes \<and> postNotes api \<noteq> None then postNotes api
      else if wanted dt Folders \<and> postFolders api \<noteq> None then postFolders api
      else if wanted dt Tags then postTags api
      else None)"

text \<open>
  \<open>syncWithSupabase\<close>. The user is \<open>None\<close> for \<^verbatim>\<open>null\<close> and \<open>Some i\<close> for a user with
  \<^verbatim>\<open>id\<close> \<open>i\<close>; \<^verbatim>\<open>!user || !user.id\<close> holds for \<^verbatim>\<open>null\<close> and for the identifier 0. The
  result is the value returned or the error thrown, with the local database after the call.
\<close>

definition syncWithSupabase ::
  "int option \<Rightarrow> dataType option \<Rightarrow> ('n note_core_scheme, 'f, 't) supabaseApi \<Rightarrow> int \<Rightarrow>
   ('n note_core_scheme, 'f, 't) lsDb \<Rightarrow> (error + bool) \<times> ('n note_core_scheme, 'f, 't) lsDb" where
  "syncWithSupabase user dt api now st =
     (if user = None \<or> user = Some 0 then (Inr False, st)
      else
        let localData = exportAllData st
        in (case fetchSupabase dt api of
              Inl e \<Rightarrow> (Inl e, st)
            | Inr remoteData \<Rightarrow>
                let mergedData = mergedSupabase dt localData remoteData;
                    st1 = importAllData mergedData st
                in (case uploadSupabase dt api of
                      Some e \<Rightarrow> (Inl e, st1)
                    | None \<Rightarrow> (Inr True, saveMetadata ''supabase-sync'' now st1))))"

subsection \<open>\<open>syncWithWebDAV\<close>\<close>

text \<open>
  What the WebDAV server answers during one pass: the error of \<^verbatim>\<open>getWebDAVClient\<close>, if
  any; what \<^verbatim>\<open>downloadFromWebDAV\<close> returns for each file (it catches every error and
  returns \<^verbatim>\<open>null\<close>); and the error of each \<^verbatim>\<open>uploadToWebDAV\<close>, if any.
\<close>

record ('n, 'f, 't) webdavServer =
  clientError :: "error option"
  notesFile :: "'n entity list option"
  noteTagsFile :: "link_props entity list option"
  foldersFile :: "'f entity list option"
  tagsFile :: "'t entity list option"
  putNotes :: "error option"
  putNoteTags :: "error option"
  putFolders :: "error option"
  putTags :: "error option"

text \<open>\<^verbatim>\<open>mergedData\<close> of \<open>syncWithWebDAV\<close>.\<close>

definition mergedWebDAV ::
  "dataType option \<Rightarrow> ('n note_core_scheme, 'f, 't) allData \<Rightarrow>
   ('n note_core_scheme, 'f, 't) webdavServer \<Rightarrow> ('n note_core_scheme, 'f, 't) partialData" where
  "mergedWebDAV dt localData srv =
     \<lparr>notesOpt = (if wanted dt Notes
                  then Some (downloadAndMerge noteUpdatedAt (notesFile srv) (notes_all localData))
                  else None),
      foldersOpt = (if wanted dt Folders
                    then Some (downloadAndMerge noUpdatedAt (foldersFile srv) (folders_all localData))
                    else None),
      tagsOpt = (if wanted dt Tags
                 then Some (downloadAndMerge noUpdatedAt (tagsFile srv) (tags_all localData))
                 else None),
      noteTagsOpt = (if wanted dt Notes
                     then Some (downloadAndMerge noUpdatedAt (noteTagsFile srv)
                                  (noteTags_all localData))
                     else None)\<rparr>"

definition uploadWebDAV :: "dataType option \<Rightarrow> ('n, 'f, 't) webdavServer \<Rightarrow> error option" where
  "uploadWebDAV dt srv =
     (if wanted dt Notes \<and> putNotes srv \<noteq> None then putNotes srv
      else if wanted dt Notes \<and> putNoteTags srv \<noteq> None then putNoteTags srv
      else if wanted dt Folders \<and> putFolders srv \<noteq> None then putFolders srv
      else if wanted dt Tags then putTags srv
      else None)"

text \<open>\<open>syncWithWebDAV\<close>; \<open>enabled\<close> is \<^verbatim>\<open>config.enabled\<close>.\<close>

definition syncWithWebDAV ::
  "bool \<Rightarrow> dataType option \<Rightarrow> ('n note_core_scheme, 'f, 't) webdavServer \<Rightarrow> int \<Rightarrow>
   ('n note_core_scheme, 'f, 't) lsDb \<Rightarrow> (error + bool) \<times> ('n note_core_scheme, 'f, 't) lsDb" where
  "syncWithWebDAV enabled dt srv now st =
     (if \<not> enabled then (Inr False, st)
      else
        (case clientError srv of
           Some e \<Rightarrow> (Inl e, st)
         | None \<Rightarrow>
             let localData = exportAllData st;
                 mergedData = mergedWebDAV dt localData srv;
                 st1 = importAllData mergedData st
             in (case uploadWebDAV dt srv of
                   Some e \<Rightarrow> (Inl e, st1)
                 | None \<Rightarrow> (Inr True, saveMetadata ''webdav-sync'' now st1))))"

subsection \<open>Links and the entities they reference\<close>

text \<open>
  Every link of \<open>links\<close> references a note whose identifier is in \<open>noteIds\<close> and a tag
  whose identifier is in \<open>tagIds\<close>.
\<close>

definition noDanglingLinks :: "link_props entity list \<Rightarrow> int set \<Rightarrow> int set \<Rightarrow> bool" where
  "noDanglingLinks links noteIds tagIds =
     (\<forall>l \<in> set links. noteId (props l) \<in> noteIds \<and> tagId (props l) \<in> tagIds)"

text \<open>
  The identifiers that a merge can know of: those of the local records, and the positive
  ones of the remote records.
\<close>

definition knownIds :: "'p entity list \<Rightarrow> 'p entity list \<Rightarrow> int set" where
  "knownIds localItems remoteItems =
     ident ` set localItems \<union> ident ` set (filter (\<lambda>r. 0 < ident r) remoteItems)"

section \<open>The storage mode: \<open>setStorageType\<close> and \<open>changeStorageType\<close>\<close>

datatype storageType = Local | Supabase | Webdav

text \<open>The string that \<^verbatim>\<open>localStorage\<close> keeps for a storage type.\<close>

fun typeName :: "storageType \<Rightarrow> string" where
  "typeName Local = ''local''"
| "typeName Supabase = ''supabase''"
| "typeName Webdav = ''webdav''"

record webdavConfig =
  url :: string
  username :: "string option"
  password :: "string option"

record toast =
  toastTitle :: string
  toastDescription :: string
  destructive :: bool

text \<open>
  What the provider and the hook hold and touch: the React state \<open>storageType\<close>, the
  entry \<^verbatim>\<open>notecraft_storage_type\<close> of \<^verbatim>\<open>localStorage\<close>, the WebDAV configuration,
  \<open>isAuthenticated\<close> of the authentication context, whether \<^verbatim>\<open>localDb.init()\<close> has
  been called, and the toasts shown.
\<close>

record controller =
  storageType :: storageType
  savedType :: "string option"
  webdavConfig :: "webdavConfig option"
  isAuthenticated :: bool
  localDbInitCalled :: bool
  toasts :: "toast list"

text \<open>
  \<open>setStorageType\<close> of the provider; \<open>initError\<close> is the error with which
  \<^verbatim>\<open>localDb.init()\<close> rejects, if it does.
\<close>

definition setStorageType ::
  "storageType \<Rightarrow> error option \<Rightarrow> controller \<Rightarrow> (error + unit) \<times> controller" where
  "setStorageType type initError c =
     (if type = Supabase \<and> \<not> isAuthenticated c
      then (Inl (Error ''You must be logged in to use Supabase storage''), c)
      else if type = Webdav \<and> webdavConfig c = None
      then (Inl (Error ''WebDAV must be configured first''), c)
      else
        let c1 = c\<lparr>savedType := Some (typeName type), storageType := type\<rparr>
        in if type = Local
           then (case initError of
                   Some e \<Rightarrow> (Inl e, c1\<lparr>localDbInitCalled := True\<rparr>)
                 | None \<Rightarrow> (Inr (), c1\<lparr>localDbInitCalled := True\<rparr>))
           else (Inr (), c1))"

definition errorMessage :: "error \<Rightarrow> string" where
  "errorMessage e = (case e of Error msg \<Rightarrow> msg)"

definition failureToast :: "error \<Rightarrow> toast" where
  "failureToast e =
     \<lparr>toastTitle = ''Storage change failed'', toastDescription = errorMessage e,
      destructive = True\<rparr>"

definition successToast :: "storageType \<Rightarrow> toast" where
  "successToast type =
     \<lparr>toastTitle = ''Storage updated'',
      toastDescription = ''Now using '' @ typeName type @ '' storage'',
      destructive = False\<rparr>"

text \<open>
  \<open>changeStorageType\<close> of the hook: the same two tests, the call of the provider's
  \<open>setStorageType\<close>, and a toast; an error is reported by a toast and thrown again.
\<close>

definition changeStorageType ::
  "storageType \<Rightarrow> error option \<Rightarrow> controller \<Rightarrow> (error + unit) \<times> controller" where
  "changeStorageType type initError c =
     (let attempt =
            (if type = Supabase \<and> \<not> isAuthenticated c
             then (Inl (Error ''You must be logged in to use Supabase storage''), c)
             else if type = Webdav \<and> webdavConfig c = None
             then (Inl (Error ''WebDAV must be configured first''), c)
             else setStorageType type initError c)
      in (case attempt of
            (Inl err, c1) \<Rightarrow> (Inl err, c1\<lparr>toasts := toasts c1 @ [failureToast err]\<rparr>)
          | (Inr u, c1) \<Rightarrow> (Inr (), c1\<lparr>toasts := toasts c1 @ [successToast type]\<rparr>)))"

section \<open>Facts about the reconciler\<close>

lemma positiveItemMap_snoc:
  "positiveItemMap (xs @ [x]) =
     (if 0 < ident x then (positiveItemMap xs)(ident x \<mapsto> x) else positiveItemMap xs)"
  by (simp add: positiveItemMap_def)

lemma allItemMap_snoc: "allItemMap (xs @ [x]) = (allItemMap xs)(ident x \<mapsto> x)"
  by (simp add: allItemMap_def)

lemma positiveItemMap_Nil: "positiveItemMap [] = Map.empty"
  by (simp add: positiveItemMap_def)

lemma allItemMap_Nil: "allItemMap [] = Map.empty"
  by (simp add: allItemMap_def)

lemma positiveItemMap_Some:
  "positiveItemMap xs k = Some r \<Longrightarrow> r \<in> set xs \<and> ident r = k \<and> 0 < k"
  by (induction xs rule: rev_induct)
     (auto simp: positiveItemMap_snoc positiveItemMap_Nil split: if_splits)

lemma positiveItemMap_None:
  "positiveItemMap xs k = None \<longleftrightarrow> \<not> (0 < k \<and> k \<in> ident ` set xs)"
  by (induction xs rule: rev_induct)
     (auto simp: positiveItemMap_snoc positiveItemMap_Nil split: if_splits)

lemma allItemMap_None: "allItemMap xs k = None \<longleftrightarrow> k \<notin> ident ` set xs"
  by (induction xs rule: rev_induct) (auto simp: allItemMap_snoc allItemMap_Nil)

lemma positiveItemMap_last:
  "0 < ident r \<Longrightarrow> \<forall>x \<in> set post. ident x \<noteq> ident r \<Longrightarrow>
   positiveItemMap (pre @ r # post) (ident r) = Some r"
  by (induction post rule: rev_induct)
     (auto simp: positiveItemMap_snoc simp flip: append_Cons append_assoc)

lemma positiveItemMap_distinct:
  "distinct (map ident (filter (\<lambda>x. 0 < ident x) xs)) \<Longrightarrow> x \<in> set xs \<Longrightarrow> 0 < ident x \<Longrightarrow>
   positiveItemMap xs (ident x) = Some x"
proof (induction xs rule: rev_induct)
  case Nil
  then show ?case by simp
next
  case (snoc y ys)
  show ?case
  proof (cases "x = y")
    case True
    with snoc.prems show ?thesis by (simp add: positiveItemMap_snoc)
  next
    case False
    with snoc.prems have mem: "x \<in> set ys" by simp
    from snoc.prems have d: "distinct (map ident (filter (\<lambda>x. 0 < ident x) ys))"
      by (simp split: if_splits)
    have neq: "0 < ident y \<Longrightarrow> ident y \<noteq> ident x"
      using snoc.prems mem by (auto simp: image_iff)
    from snoc.IH [OF d mem snoc.prems(3)] neq show ?thesis
      by (auto simp: positiveItemMap_snoc)
  qed
qed

lemma mergeLocalItem_cases:
  "mergeLocalItem upd m l = l \<or> (\<exists>r. m (ident l) = Some r \<and> mergeLocalItem upd m l = r)"
  by (auto simp: mergeLocalItem_def split: option.splits)

lemma mergeLocalItem_same:
  "(0 < ident l \<Longrightarrow> m (ident l) = Some l) \<Longrightarrow> mergeLocalItem upd m l = l"
  by (auto simp: mergeLocalItem_def split: option.splits)

lemma mergeLocalItem_ident:
  "(\<And>k r. m k = Some r \<Longrightarrow> ident r = k) \<Longrightarrow> ident (mergeLocalItem upd m l) = ident l"
  using mergeLocalItem_cases [of upd m l] by auto

lemma merge_passes_eq:
  "remoteItems \<noteq> [] \<Longrightarrow>
   mergeData upd localItems remoteItems = downloadAndMerge upd (Some remoteItems) localItems"
proof -
  have "(0 < ident r \<and> positiveItemMap localItems (ident r) = None) =
        (0 < ident r \<and> allItemMap localItems (ident r) = None)" for r :: "'a entity"
    by (auto simp: positiveItemMap_None allItemMap_None)
  then show "remoteItems \<noteq> [] \<Longrightarrow> ?thesis"
    by (simp add: mergeData_def downloadAndMerge_def Let_def)
qed

lemma downloadAndMerge_empty: "downloadAndMerge upd (Some []) localItems = localItems"
proof -
  have "map (mergeLocalItem upd Map.empty) localItems = localItems"
    by (induction localItems) (simp_all add: mergeLocalItem_def)
  then show ?thesis
    by (simp add: downloadAndMerge_def positiveItemMap_Nil)
qed

lemma mergeData_eq_download:
  "mergeData upd localItems remoteItems = downloadAndMerge upd (Some remoteItems) localItems"
proof (cases "remoteItems = []")
  case True
  then show ?thesis by (simp add: downloadAndMerge_empty) (simp add: mergeData_def)
next
  case False
  then show ?thesis by (rule merge_passes_eq)
qed

lemma downloadAndMerge_mem:
  assumes "x \<in> set (downloadAndMerge upd downloaded localItems)"
  shows "x \<in> set localItems \<or>
         (\<exists>remoteItems. downloaded = Some remoteItems \<and> x \<in> set remoteItems \<and> 0 < ident x)"
proof (cases downloaded)
  case None
  with assms show ?thesis by (simp add: downloadAndMerge_def)
next
  case (Some remoteItems)
  from assms Some consider
    (loc) l where "l \<in> set localItems" "x = mergeLocalItem upd (positiveItemMap remoteItems) l"
    | (rem) "x \<in> set remoteItems" "0 < ident x"
    by (auto simp: downloadAndMerge_def Let_def)
  then show ?thesis
  proof cases
    case loc
    with mergeLocalItem_cases [of upd "positiveItemMap remoteItems" l] Some show ?thesis
      by (auto dest: positiveItemMap_Some)
  next
    case rem
    with Some show ?thesis by simp
  qed
qed

lemma nth_merge_local:
  "i < length localItems \<Longrightarrow>
   downloadAndMerge upd (Some remoteItems) localItems ! i =
     mergeLocalItem upd (positiveItemMap remoteItems) (localItems ! i)"
  by (simp add: downloadAndMerge_def Let_def nth_append)

subsection \<open>Last writer wins\<close>

text \<open>
  Claim C1, as the code has it. A local record with a positive identifier and the remote
  record with the same identifier (the last one in the remote list, should the list hold
  several), both with a valid \<open>updatedAt\<close>: the merged output has, at the position of
  the local record, the local record when its timestamp is strictly newer and the remote
  record otherwise. Equal timestamps therefore keep the remote record, in
  \<open>mergeData\<close> and in \<open>downloadAndMerge\<close>.
\<close>

theorem merge_last_writer_wins:
  assumes "i < length localItems"
    and "0 < ident (localItems ! i)"
    and "remoteItems = pre @ r # post"
    and "ident r = ident (localItems ! i)"
    and "\<forall>x \<in> set post. ident x \<noteq> ident r"
    and "upd (localItems ! i) = Some (Time a)"
    and "upd r = Some (Time b)"
  shows "mergeData upd localItems remoteItems ! i = (if b < a then localItems ! i else r) \<and>
         downloadAndMerge upd (Some remoteItems) localItems ! i =
           (if b < a then localItems ! i else r)"
proof -
  have pos: "0 < ident r" using assms(2,4) by simp
  have look: "positiveItemMap remoteItems (ident (localItems ! i)) = Some r"
    using positiveItemMap_last [OF pos assms(5), of pre] assms(3,4) by simp
  have "mergeLocalItem upd (positiveItemMap remoteItems) (localItems ! i) =
        (if b < a then localItems ! i else r)"
    using assms(2,6,7) look by (simp add: mergeLocalItem_def)
  then show ?thesis
    using assms(1) by (simp add: mergeData_eq_download nth_merge_local)
qed

text \<open>Note 7, local \<open>updatedAt = 101\<close>, remote \<open>updatedAt = 100\<close>: the local copy stays.\<close>

theorem merge_last_writer_wins_witness:
  "mergeData noteUpdatedAt
     [\<lparr>ident = 7, props = \<lparr>folderId = Val 1, updatedAt = Val (Time 101)\<rparr>\<rparr>]
     [\<lparr>ident = 7, props = \<lparr>folderId = Val 2, updatedAt = Val (Time 100)\<rparr>\<rparr>] ! 0 =
   \<lparr>ident = 7, props = \<lparr>folderId = Val 1, updatedAt = Val (Time 101)\<rparr>\<rparr>"
  using merge_last_writer_wins [of 0
      "[\<lparr>ident = 7, props = \<lparr>folderId = Val 1, updatedAt = Val (Time 101)\<rparr>\<rparr>]"
      "[\<lparr>ident = 7, props = \<lparr>folderId = Val 2, updatedAt = Val (Time 100)\<rparr>\<rparr>]"
      "[]" "\<lparr>ident = 7, props = \<lparr>folderId = Val 2, updatedAt = Val (Time 100)\<rparr>\<rparr>" "[]"
      noteUpdatedAt 101 100]
  by (simp add: noteUpdatedAt_def)

text \<open>
  Claim C1 as stated fails on a tie: note 7 with \<open>updatedAt = 100\<close> on both sides and a
  different folder on each. The merged list is the remote copy, not the local one.
\<close>

theorem merge_tie_counterexample:
  "mergeData noteUpdatedAt
     [\<lparr>ident = 7, props = \<lparr>folderId = Val 1, updatedAt = Val (Time 100)\<rparr>\<rparr>]
     [\<lparr>ident = 7, props = \<lparr>folderId = Val 2, updatedAt = Val (Time 100)\<rparr>\<rparr>] =
   [\<lparr>ident = 7, props = \<lparr>folderId = Val 2, updatedAt = Val (Time 100)\<rparr>\<rparr>] \<and>
   downloadAndMerge noteUpdatedAt
     (Some [\<lparr>ident = 7, props = \<lparr>folderId = Val 2, updatedAt = Val (Time 100)\<rparr>\<rparr>])
     [\<lparr>ident = 7, props = \<lparr>folderId = Val 1, updatedAt = Val (Time 100)\<rparr>\<rparr>] =
   [\<lparr>ident = 7, props = \<lparr>folderId = Val 2, updatedAt = Val (Time 100)\<rparr>\<rparr>] \<and>
   mergeData noteUpdatedAt
     [\<lparr>ident = 7, props = \<lparr>folderId = Val 1, updatedAt = Val (Time 100)\<rparr>\<rparr>]
     [\<lparr>ident = 7, props = \<lparr>folderId = Val 2, updatedAt = Val (Time 100)\<rparr>\<rparr>] ! 0 \<noteq>
   \<lparr>ident = 7, props = \<lparr>folderId = Val 1, updatedAt = Val (Time 100)\<rparr>\<rparr>"
  by (simp add: mergeData_def downloadAndMerge_def positiveItemMap_def allItemMap_def
      mergeLocalItem_def noteUpdatedAt_def)

subsection \<open>Remote records without a positive identifier\<close>

text \<open>
  Claim C10. A record whose identifier is zero or negative and which is not one of the
  local records is in no merged output, whatever the remote list holds; and a remote
  record with a positive identifier that no local record has is in the merged output.
\<close>

theorem merge_drops_nonpositive_remote:
  "(ident x \<le> 0 \<longrightarrow> x \<notin> set localItems \<longrightarrow>
      x \<notin> set (mergeData upd localItems remoteItems) \<and>
      x \<notin> set (downloadAndMerge upd downloaded localItems)) \<and>
   (x \<in> set remoteItems \<longrightarrow> 0 < ident x \<longrightarrow> ident x \<notin> ident ` set localItems \<longrightarrow>
      x \<in> set (mergeData upd localItems remoteItems) \<and>
      x \<in> set (downloadAndMerge upd (Some remoteItems) localItems))"
proof -
  have a: "ident x \<le> 0 \<Longrightarrow> x \<notin> set localItems \<Longrightarrow>
           x \<notin> set (downloadAndMerge upd d localItems)" for d
    using downloadAndMerge_mem [of x upd d localItems] by auto
  have b: "x \<in> set remoteItems \<Longrightarrow> 0 < ident x \<Longrightarrow> ident x \<notin> ident ` set localItems \<Longrightarrow>
           x \<in> set (downloadAndMerge upd (Some remoteItems) localItems)"
    by (simp add: downloadAndMerge_def allItemMap_None)
  show ?thesis
    using a [of downloaded] a [of "Some remoteItems"] b by (simp add: mergeData_eq_download)
qed

text \<open>
  A remote list with identifiers \<open>-3\<close>, \<open>0\<close> and \<open>4\<close> against a local list with
  identifier \<open>-1\<close>: the remote record \<open>-3\<close> is not in the output, and the remote
  record \<open>4\<close> is.
\<close>

theorem merge_drops_nonpositive_remote_witness:
  "\<lparr>ident = -3, props = ()\<rparr> \<notin>
     set (mergeData noUpdatedAt [\<lparr>ident = -1, props = ()\<rparr>]
       [\<lparr>ident = -3, props = ()\<rparr>, \<lparr>ident = 0, props = ()\<rparr>, \<lparr>ident = 4, props = ()\<rparr>]) \<and>
   \<lparr>ident = 4, props = ()\<rparr> \<in>
     set (mergeData noUpdatedAt [\<lparr>ident = -1, props = ()\<rparr>]
       [\<lparr>ident = -3, props = ()\<rparr>, \<lparr>ident = 0, props = ()\<rparr>, \<lparr>ident = 4, props = ()\<rparr>])"
  using merge_drops_nonpositive_remote [of "\<lparr>ident = -3, props = ()\<rparr>"
      "[\<lparr>ident = -1, props = ()\<rparr>]" noUpdatedAt
      "[\<lparr>ident = -3, props = ()\<rparr>, \<lparr>ident = 0, props = ()\<rparr>, \<lparr>ident = 4, props = ()\<rparr>]"]
    merge_drops_nonpositive_remote [of "\<lparr>ident = 4, props = ()\<rparr>"
      "[\<lparr>ident = -1, props = ()\<rparr>]" noUpdatedAt
      "[\<lparr>ident = -3, props = ()\<rparr>, \<lparr>ident = 0, props = ()\<rparr>, \<lparr>ident = 4, props = ()\<rparr>]"]
  by simp

section \<open>The storage mode\<close>

text \<open>
  Claim C5. A change to the mode \<open>Supabase\<close> while the caller is not authenticated
  fails with the error \<^verbatim>\<open>You must be logged in to use Supabase storage\<close>. The provider's
  \<open>setStorageType\<close> leaves the whole state as it was. The hook's \<open>changeStorageType\<close>
  reports the error in a toast and changes nothing else: the mode, the entry of
  \<^verbatim>\<open>localStorage\<close>, the configuration and the local database are untouched, and the
  mode reported afterwards is the mode before the request.
\<close>

theorem mode_change_requires_authentication:
  assumes "\<not> isAuthenticated c"
  shows "setStorageType Supabase initError c =
           (Inl (Error ''You must be logged in to use Supabase storage''), c) \<and>
         changeStorageType Supabase initError c =
           (Inl (Error ''You must be logged in to use Supabase storage''),
            c\<lparr>toasts := toasts c @
               [failureToast (Error ''You must be logged in to use Supabase storage'')]\<rparr>) \<and>
         storageType (snd (setStorageType Supabase initError c)) = storageType c \<and>
         storageType (snd (changeStorageType Supabase initError c)) = storageType c"
  using assms by (simp add: setStorageType_def changeStorageType_def)

text \<open>In the mode \<open>Webdav\<close>, not authenticated, the request for \<open>Supabase\<close> fails.\<close>

theorem mode_change_requires_authentication_witness:
  "changeStorageType Supabase None
     \<lparr>storageType = Webdav, savedType = Some ''webdav'',
      webdavConfig = Some \<lparr>url = ''https://dav.example'', username = None, password = None\<rparr>,
      isAuthenticated = False, localDbInitCalled = False, toasts = []\<rparr> =
   (Inl (Error ''You must be logged in to use Supabase storage''),
    \<lparr>storageType = Webdav, savedType = Some ''webdav'',
      webdavConfig = Some \<lparr>url = ''https://dav.example'', username = None, password = None\<rparr>,
      isAuthenticated = False, localDbInitCalled = False,
      toasts = [\<lparr>toastTitle = ''Storage change failed'',
                 toastDescription = ''You must be logged in to use Supabase storage'',
                 destructive = True\<rparr>]\<rparr>)"
  using mode_change_requires_authentication [of
     "\<lparr>storageType = Webdav, savedType = Some ''webdav'',
      webdavConfig = Some \<lparr>url = ''https://dav.example'', username = None, password = None\<rparr>,
      isAuthenticated = False, localDbInitCalled = False, toasts = []\<rparr>" None]
  by (simp add: failureToast_def errorMessage_def)

section \<open>The identity allocator\<close>

lemma jsNumber_exact: "\<bar>n\<bar> \<le> 2 ^ 53 \<Longrightarrow> jsNumber n = n"
  by (simp add: jsNumber_def)

lemma nextIds_eq:
  "- (2 ^ 53) \<le> idCounter s \<Longrightarrow> idCounter s + int n \<le> 2 ^ 53 \<Longrightarrow>
   nextIds n s = map (\<lambda>k. idCounter s + int k) [0..<n]"
proof (induction n arbitrary: s)
  case 0
  then show ?case by simp
next
  case (Suc n)
  from Suc.prems have ex: "jsNumber (idCounter s + 1) = idCounter s + 1"
    by (intro jsNumber_exact) simp
  have "map (\<lambda>k. idCounter s + int k) [0..<Suc n] =
        idCounter s # map (\<lambda>k. idCounter s + 1 + int k) [0..<n]"
    by (simp add: upt_conv_Cons map_Suc_upt [symmetric] del: upt_Suc)
  moreover have "nextIds n (s\<lparr>idCounter := idCounter s + 1\<rparr>) =
        map (\<lambda>k. idCounter s + 1 + int k) [0..<n]"
    using Suc.IH [of "s\<lparr>idCounter := idCounter s + 1\<rparr>"] Suc.prems by simp
  ultimately show ?case
    by (simp add: getNextId_def ex del: upt_Suc)
qed

lemma Max_ident: "xs \<noteq> [] \<Longrightarrow> \<exists>x \<in> set xs. Max (ident ` set xs) = ident x"
proof -
  assume "xs \<noteq> []"
  then have "Max (ident ` set xs) \<in> ident ` set xs"
    by (intro Max_in) simp_all
  then show ?thesis by (auto simp: image_iff)
qed

lemma loadIdCounters_counter:
  assumes "rows s \<noteq> []"
    and "\<forall>x \<in> set (rows s). - (2 ^ 53) \<le> ident x \<and> ident x < 2 ^ 53"
  shows "idCounter (loadIdCounters s) = Max (ident ` set (rows s)) + 1"
proof -
  from Max_ident [OF assms(1)] assms(2)
  have "\<bar>Max (ident ` set (rows s)) + 1\<bar> \<le> 2 ^ 53" by auto
  then show ?thesis using assms(1)
    by (simp add: loadIdCounters_def jsNumber_exact)
qed

lemma loadIdCounters_above:
  assumes "x \<in> set (rows s)"
    and "\<forall>x \<in> set (rows s). - (2 ^ 53) \<le> ident x \<and> ident x < 2 ^ 53"
  shows "ident x < idCounter (loadIdCounters s)"
proof -
  from assms(1) have ne: "rows s \<noteq> []" by auto
  from assms(1) have "ident x \<le> Max (ident ` set (rows s))" by simp
  with loadIdCounters_counter [OF ne assms(2)] show ?thesis by simp
qed

lemma initStore_counter:
  "\<forall>x \<in> set persisted. - (2 ^ 53) \<le> ident x \<and> ident x < 2 ^ 53 \<Longrightarrow>
   idCounter (initStore persisted) =
     (if persisted = [] then 1 else Max (ident ` set persisted) + 1)"
  using loadIdCounters_counter [of "\<lparr>rows = persisted, idCounter = 1\<rparr>"]
  by (auto simp: initStore_def) (simp add: loadIdCounters_def)

lemma initStore_above:
  "\<forall>x \<in> set persisted. - (2 ^ 53) \<le> ident x \<and> ident x < 2 ^ 53 \<Longrightarrow> x \<in> set persisted \<Longrightarrow>
   ident x < idCounter (initStore persisted)"
  using loadIdCounters_above [of x "\<lparr>rows = persisted, idCounter = 1\<rparr>"]
  by (simp add: initStore_def)

text \<open>
  Claim C6, as the code has it. The counter is a double, and a sum of integers is exact
  as long as it is at most \<open>2 ^ 53\<close> in absolute value. Over a store whose
  identifiers are at least \<open>- (2 ^ 53)\<close> and, with the \<open>n\<close> identifiers to issue, below
  \<open>2 ^ 53\<close>, the counter of a fresh instance is one more than the largest identifier
  (1 for an empty store), every one of the next \<open>n\<close> identifiers is above every
  persisted one, and they increase strictly.
\<close>

theorem allocator_after_reload:
  assumes "\<forall>x \<in> set persisted. - (2 ^ 53) \<le> ident x \<and> ident x + int n < 2 ^ 53"
    and "int n < 2 ^ 53"
  shows "idCounter (initStore persisted) =
           (if persisted = [] then 1 else Max (ident ` set persisted) + 1) \<and>
         (\<forall>i \<in> set (nextIds n (initStore persisted)). \<forall>x \<in> set persisted. ident x < i) \<and>
         sorted_wrt (<) (nextIds n (initStore persisted))"
proof -
  from assms(1) have b: "\<forall>x \<in> set persisted. - (2 ^ 53) \<le> ident x \<and> ident x < 2 ^ 53"
    by auto
  note c = initStore_counter [OF b]
  have lo: "- (2 ^ 53) \<le> idCounter (initStore persisted)"
  proof (cases "persisted = []")
    case True
    with c show ?thesis by simp
  next
    case False
    with Max_ident [OF False] b c show ?thesis by auto
  qed
  have hi: "idCounter (initStore persisted) + int n \<le> 2 ^ 53"
  proof (cases "persisted = []")
    case True
    with c assms(2) show ?thesis by simp
  next
    case False
    with Max_ident [OF False] assms(1) c show ?thesis by auto
  qed
  note e = nextIds_eq [OF lo hi]
  have "\<forall>i \<in> set (nextIds n (initStore persisted)). \<forall>x \<in> set persisted. ident x < i"
  proof (intro ballI)
    fix i x
    assume "i \<in> set (nextIds n (initStore persisted))" and x: "x \<in> set persisted"
    then have "idCounter (initStore persisted) \<le> i" by (auto simp: e)
    with initStore_above [OF b x] show "ident x < i" by simp
  qed
  moreover have "sorted_wrt (<) (nextIds n (initStore persisted))"
    by (simp add: e sorted_wrt_map sorted_wrt_upt del: upt_Suc)
  ultimately show ?thesis using c by blast
qed

text \<open>A store holding the identifiers 3 and 7: the counter is 8, then come 8, 9 and 10.\<close>

theorem allocator_after_reload_witness:
  "idCounter (initStore [\<lparr>ident = 3, props = ()\<rparr>, \<lparr>ident = 7, props = ()\<rparr>]) = 8 \<and>
   nextIds 3 (initStore [\<lparr>ident = 3, props = ()\<rparr>, \<lparr>ident = 7, props = ()\<rparr>]) = [8, 9, 10]"
  using allocator_after_reload [of "[\<lparr>ident = 3, props = ()\<rparr>, \<lparr>ident = 7, props = ()\<rparr>]" 3]
  by (simp add: numeral_3_eq_3 initStore_def loadIdCounters_def getNextId_def jsNumber_def)

text \<open>
  Claim C6 as stated, for every store, fails over a store that holds the identifier
  \<open>2 ^ 53 = 9007199254740992\<close>: \<open>2 ^ 53 + 1\<close> is no double, the sum rounds back to
  \<open>2 ^ 53\<close>, and so does every increment. The counter is the persisted identifier, not
  one more, and it is issued again at every call.
\<close>

theorem allocator_at_double_limit_counterexample:
  "idCounter (initStore [\<lparr>ident = 9007199254740992, props = ()\<rparr>]) = 9007199254740992 \<and>
   nextIds 2 (initStore [\<lparr>ident = 9007199254740992, props = ()\<rparr>]) =
     [9007199254740992, 9007199254740992]"
  by code_simp


section \<open>Facts about the object stores\<close>


lemma set_storePut: "set (storePut x xs) \<subseteq> insert x (set xs)"
  by (induction xs) auto


lemma storeGet_storePut_other:
  "storeGet k (storePut x xs) = (if ident x = k then Some x else storeGet k xs)"
  by (induction xs) (auto simp: storeGet_def)

lemma distinct_map_storePut:
  "distinct (map f xs) \<Longrightarrow> f x \<notin> f ` set xs \<Longrightarrow> distinct (map f (storePut x xs))"
proof (induction xs)
  case Nil
  then show ?case by simp
next
  case (Cons y ys)
  have "f y \<notin> f ` set (storePut x ys)" if "f y \<notin> f ` set ys" "f x \<noteq> f y"
    using that set_storePut [of x ys] by auto
  with Cons show ?case by auto
qed

lemma set_mapSet: "set (mapSet x xs) \<subseteq> insert x (set xs)"
  by (induction xs) auto

lemma distinct_map_mapSet:
  "distinct (map f xs) \<Longrightarrow> f x \<notin> f ` set xs \<Longrightarrow> distinct (map f (mapSet x xs))"
proof (induction xs)
  case Nil
  then show ?case by simp
next
  case (Cons y ys)
  have "f y \<notin> f ` set (mapSet x ys)" if "f y \<notin> f ` set ys" "f x \<noteq> f y"
    using that set_mapSet [of x ys] by auto
  with Cons show ?case by auto
qed

section \<open>Links between notes and tags\<close>

lemma find_link_None:
  "find (\<lambda>nt. noteId (props nt) = n \<and> tagId (props nt) = t) links = None \<Longrightarrow>
   (n, t) \<notin> (\<lambda>l. (noteId (props l), tagId (props l))) ` set links"
  by (auto simp: find_None_iff)

lemma no_link_for_note:
  "\<not> list_ex (\<lambda>nt. tagId (props nt) = t) (filter (\<lambda>nt. noteId (props nt) = n) links) \<Longrightarrow>
   (n, t) \<notin> (\<lambda>l. (noteId (props l), tagId (props l))) ` set links"
  by (auto simp: list_ex_iff)

text \<open>
  Claim C9. \<open>addTagToNote\<close> keeps the links free of duplicates, in the local class of
  \<^verbatim>\<open>db.ts\<close>, in the server's \<open>MemStorage\<close> and in \<^verbatim>\<open>utils/storage.ts\<close>: when no two
  links of the table join the same note and tag before the call, none do after it,
  whether the pair was there or not.
\<close>

theorem addTagToNote_keeps_links_unique:
  "(noDuplicateLinks (rows (db_noteTags d)) \<longrightarrow>
      noDuplicateLinks (rows (db_noteTags (addTagToNote_db n t d)))) \<and>
   (noDuplicateLinks (mem_noteTags m) \<longrightarrow>
      noDuplicateLinks (mem_noteTags (snd (addTagToNote_mem n t m)))) \<and>
   (noDuplicateLinks (lsRows (ls_noteTags st)) \<longrightarrow>
      noDuplicateLinks (lsRows (ls_noteTags (snd (addTagToNote_ls n t st)))))"
proof (intro conjI impI)
  assume u: "noDuplicateLinks (rows (db_noteTags d))"
  show "noDuplicateLinks (rows (db_noteTags (addTagToNote_db n t d)))"
  proof (cases "find (\<lambda>nt. noteId (props nt) = n \<and> tagId (props nt) = t) (rows (db_noteTags d))")
    case None
    from find_link_None [OF None] u show ?thesis
      by (simp add: addTagToNote_db_def None addItem_def getNextId_def noDuplicateLinks_def
          distinct_map_storePut Let_def)
  next
    case (Some r)
    with u show ?thesis by (simp add: addTagToNote_db_def)
  qed
next
  assume u: "noDuplicateLinks (mem_noteTags m)"
  show "noDuplicateLinks (mem_noteTags (snd (addTagToNote_mem n t m)))"
  proof (cases "find (\<lambda>nt. noteId (props nt) = n \<and> tagId (props nt) = t) (mem_noteTags m)")
    case None
    from find_link_None [OF None] u show ?thesis
      by (simp add: addTagToNote_mem_def None noDuplicateLinks_def distinct_map_mapSet Let_def)
  next
    case (Some r)
    with u show ?thesis by (simp add: addTagToNote_mem_def)
  qed
next
  assume u: "noDuplicateLinks (lsRows (ls_noteTags st))"
  show "noDuplicateLinks (lsRows (ls_noteTags (snd (addTagToNote_ls n t st))))"
  proof (cases "list_ex (\<lambda>nt. tagId (props nt) = t)
                  (filter (\<lambda>nt. noteId (props nt) = n) (lsRows (ls_noteTags st)))")
    case True
    with u show ?thesis by (simp add: addTagToNote_ls_def)
  next
    case False
    from no_link_for_note [OF False] u False show ?thesis
      by (simp add: addTagToNote_ls_def lsPut_def noDuplicateLinks_def distinct_map_storePut
          Let_def)
  qed
qed

text \<open>
  Note 5 and tag 9: the link exists in the first and the third table (nothing is added,
  and the third call is an error), and is new in the second.
\<close>

theorem addTagToNote_keeps_links_unique_witness:
  "noDuplicateLinks (rows (db_noteTags (addTagToNote_db 5 9
     (\<lparr>db_folders = \<lparr>rows = [], idCounter = 1\<rparr>, db_notes = \<lparr>rows = [], idCounter = 1\<rparr>,
      db_tags = \<lparr>rows = [], idCounter = 1\<rparr>,
      db_noteTags = \<lparr>rows = [\<lparr>ident = 1, props = \<lparr>noteId = 5, tagId = 9\<rparr>\<rparr>],
                     idCounter = 2\<rparr>\<rparr> :: (unit, unit, unit) db)))) \<and>
   noDuplicateLinks (mem_noteTags (snd (addTagToNote_mem 5 9
     \<lparr>mem_noteTags = [\<lparr>ident = 1, props = \<lparr>noteId = 5, tagId = 8\<rparr>\<rparr>],
      noteTagIdCounter = 2\<rparr>))) \<and>
   noDuplicateLinks (lsRows (ls_noteTags (snd (addTagToNote_ls 5 9
     (\<lparr>ls_notes = \<lparr>lsRows = [], keyGen = 1\<rparr>, ls_folders = \<lparr>lsRows = [], keyGen = 1\<rparr>,
      ls_tags = \<lparr>lsRows = [], keyGen = 1\<rparr>,
      ls_noteTags = \<lparr>lsRows = [\<lparr>ident = 1, props = \<lparr>noteId = 5, tagId = 9\<rparr>\<rparr>],
                     keyGen = 2\<rparr>,
      ls_metadata = Map.empty\<rparr> :: (unit, unit, unit) lsDb)))))"
  using addTagToNote_keeps_links_unique [of
     "\<lparr>db_folders = \<lparr>rows = [], idCounter = 1\<rparr>, db_notes = \<lparr>rows = [], idCounter = 1\<rparr>,
      db_tags = \<lparr>rows = [], idCounter = 1\<rparr>,
      db_noteTags = \<lparr>rows = [\<lparr>ident = 1, props = \<lparr>noteId = 5, tagId = 9\<rparr>\<rparr>],
                     idCounter = 2\<rparr>\<rparr> :: (unit, unit, unit) db" 5 9
     "\<lparr>mem_noteTags = [\<lparr>ident = 1, props = \<lparr>noteId = 5, tagId = 8\<rparr>\<rparr>],
      noteTagIdCounter = 2\<rparr>"
     "\<lparr>ls_notes = \<lparr>lsRows = [], keyGen = 1\<rparr>, ls_folders = \<lparr>lsRows = [], keyGen = 1\<rparr>,
      ls_tags = \<lparr>lsRows = [], keyGen = 1\<rparr>,
      ls_noteTags = \<lparr>lsRows = [\<lparr>ident = 1, props = \<lparr>noteId = 5, tagId = 9\<rparr>\<rparr>],
                     keyGen = 2\<rparr>,
      ls_metadata = Map.empty\<rparr> :: (unit, unit, unit) lsDb"]
  by (simp add: noDuplicateLinks_def)

section \<open>Adding a record\<close>










section \<open>Deleting a folder\<close>

lemma keyed_Cons: "keyed (x # xs) \<longleftrightarrow> (\<forall>y \<in> set xs. ident x < ident y) \<and> keyed xs"
  by (auto simp: keyed_def)

lemma keyed_distinct: "keyed xs \<Longrightarrow> distinct (map ident xs)"
  by (induction xs) (auto simp: keyed_Cons)

lemma storeGet_keyed: "keyed xs \<Longrightarrow> x \<in> set xs \<Longrightarrow> storeGet (ident x) xs = Some x"
  by (induction xs) (auto simp: keyed_Cons storeGet_def)

lemma storeGet_None: "storeGet k xs = None \<longleftrightarrow> k \<notin> ident ` set xs"
  by (auto simp: storeGet_def find_None_iff)

lemma storeGet_Some: "storeGet k xs = Some x \<Longrightarrow> x \<in> set xs \<and> ident x = k"
  by (auto simp: storeGet_def find_Some_iff)

lemma storePut_replace:
  "keyed xs \<Longrightarrow> ident y \<in> ident ` set xs \<Longrightarrow>
   storePut y xs = map (\<lambda>z. if ident z = ident y then y else z) xs"
proof (induction xs)
  case Nil
  then show ?case by simp
next
  case (Cons z zs)
  from Cons.prems(1) have less: "\<forall>w \<in> set zs. ident z < ident w" and kz: "keyed zs"
    by (simp_all add: keyed_Cons)
  show ?case
  proof (cases "ident y = ident z")
    case True
    with less have "map (\<lambda>w. if ident w = ident y then y else w) zs = zs"
      by (intro map_idI) auto
    with True show ?thesis by simp
  next
    case False
    with Cons.prems(2) have mem: "ident y \<in> ident ` set zs" by auto
    with less have "ident z < ident y" by auto
    with False Cons.IH [OF kz mem] show ?thesis by simp
  qed
qed

lemma withoutFolder_spread:
  "(folderIdNull e)\<lparr>props := (props (folderIdNull e))\<lparr>updatedAt := Val (Time now)\<rparr>\<rparr> =
   withoutFolder now e"
  by (simp add: folderIdNull_def withoutFolder_def)

lemma ident_withoutFolder: "ident (withoutFolder now e) = ident e"
  by (simp add: withoutFolder_def folderIdNull_def)

lemma updateNote_rows:
  "keyed (rows (db_notes d)) \<Longrightarrow>
   snd (updateNote now k folderIdNull d) =
     d\<lparr>db_notes := (db_notes d)\<lparr>rows :=
        map (\<lambda>z. if ident z = k then withoutFolder now z else z) (rows (db_notes d))\<rparr>\<rparr>"
proof (cases "storeGet k (rows (db_notes d))")
  case None
  then have "map (\<lambda>z. if ident z = k then withoutFolder now z else z) (rows (db_notes d)) =
             rows (db_notes d)"
    by (intro map_idI) (auto simp: storeGet_None)
  with None show ?thesis
    by (simp add: updateNote_def updateItem_def)
next
  case (Some e)
  assume k: "keyed (rows (db_notes d))"
  from storeGet_Some [OF Some] have e: "e \<in> set (rows (db_notes d))" "ident e = k" by simp_all
  then have "ident (withoutFolder now e) \<in> ident ` set (rows (db_notes d))"
    by (auto simp: ident_withoutFolder)
  from storePut_replace [OF k this] e Some
  have "storePut (withoutFolder now e) (rows (db_notes d)) =
        map (\<lambda>z. if ident z = k then withoutFolder now e else z) (rows (db_notes d))"
    by (simp add: ident_withoutFolder)
  also have "\<dots> = map (\<lambda>z. if ident z = k then withoutFolder now z else z) (rows (db_notes d))"
  proof (rule map_cong [OF refl])
    fix z assume "z \<in> set (rows (db_notes d))"
    with e keyed_distinct [OF k] have "ident z = k \<Longrightarrow> z = e"
      by (auto simp: distinct_map dest: inj_onD)
    then show "(if ident z = k then withoutFolder now e else z) = (if ident z = k then withoutFolder now z else z)"
      by auto
  qed
  finally show ?thesis using Some
    by (simp add: updateNote_def updateItem_def withoutFolder_spread Let_def)
qed

lemma keyed_map_same: "(\<And>z. ident (f z) = ident z) \<Longrightarrow> keyed (map f xs) = keyed xs"
  by (simp add: keyed_def comp_def)

lemma withoutFolder_twice: "withoutFolder now (withoutFolder now z) = withoutFolder now z"
  by (simp add: withoutFolder_def)

lemma fold_updateNote:
  "keyed (rows (db_notes d)) \<Longrightarrow>
   fold (\<lambda>note acc. snd (updateNote (clock (ident note)) (ident note) folderIdNull acc)) ns d =
     d\<lparr>db_notes := (db_notes d)\<lparr>rows :=
        map (\<lambda>z. if ident z \<in> ident ` set ns then withoutFolder (clock (ident z)) z else z)
          (rows (db_notes d))\<rparr>\<rparr>"
proof (induction ns arbitrary: d)
  case Nil
  then show ?case by simp
next
  case (Cons n ns)
  let ?h = "\<lambda>z. if ident z = ident n then withoutFolder (clock (ident n)) z else z"
  let ?d1 = "d\<lparr>db_notes := (db_notes d)\<lparr>rows := map ?h (rows (db_notes d))\<rparr>\<rparr>"
  have id: "ident (?h z) = ident z" for z :: "'a note_core_scheme entity"
    by (simp add: ident_withoutFolder)
  have k1: "keyed (rows (db_notes ?d1))"
    using Cons.prems keyed_map_same [of ?h "rows (db_notes d)"] id by simp
  have comp: "(if ident (?h z) \<in> ident ` set ns then withoutFolder (clock (ident (?h z))) (?h z)
               else ?h z) =
              (if ident z \<in> ident ` set (n # ns) then withoutFolder (clock (ident z)) z else z)"
    for z :: "'a note_core_scheme entity"
    by (auto simp: withoutFolder_twice ident_withoutFolder)
  have "fold (\<lambda>note acc. snd (updateNote (clock (ident note)) (ident note) folderIdNull acc))
          (n # ns) d =
        fold (\<lambda>note acc. snd (updateNote (clock (ident note)) (ident note) folderIdNull acc))
          ns ?d1"
    by (simp add: updateNote_rows [OF Cons.prems])
  also have "\<dots> = ?d1\<lparr>db_notes := (db_notes ?d1)\<lparr>rows :=
        map (\<lambda>z. if ident z \<in> ident ` set ns then withoutFolder (clock (ident z)) z else z)
          (rows (db_notes ?d1))\<rparr>\<rparr>"
    by (rule Cons.IH [OF k1])
  also have "\<dots> = d\<lparr>db_notes := (db_notes d)\<lparr>rows :=
        map (\<lambda>z. if ident z \<in> ident ` set (n # ns) then withoutFolder (clock (ident z)) z else z)
          (rows (db_notes d))\<rparr>\<rparr>"
    using comp by (simp add: comp_def)
  finally show ?case .
qed

lemma deleteFolder_db_eq:
  assumes "keyed (rows (db_notes d))"
  shows "deleteFolder_db clock fid d =
    (True,
     d\<lparr>db_notes := (db_notes d)\<lparr>rows :=
          map (\<lambda>z. if folderId (props z) = Val fid then withoutFolder (clock (ident z)) z else z)
            (rows (db_notes d))\<rparr>,
       db_folders := (db_folders d)\<lparr>rows := storeDelete fid (rows (db_folders d))\<rparr>\<rparr>)"
proof -
  let ?ns = "getNotesByFolder fid d"
  have "map (\<lambda>z. if ident z \<in> ident ` set ?ns then withoutFolder (clock (ident z)) z else z)
          (rows (db_notes d)) =
        map (\<lambda>z. if folderId (props z) = Val fid then withoutFolder (clock (ident z)) z else z)
          (rows (db_notes d))"
  proof (rule map_cong [OF refl])
    fix z assume z: "z \<in> set (rows (db_notes d))"
    have "ident z \<in> ident ` set ?ns \<longleftrightarrow> folderId (props z) = Val fid"
    proof
      assume "ident z \<in> ident ` set ?ns"
      then obtain w where w: "w \<in> set (rows (db_notes d))" "folderId (props w) = Val fid"
          "ident w = ident z"
        by (auto simp: getNotesByFolder_def)
      with z keyed_distinct [OF assms] have "w = z"
        by (auto simp: distinct_map dest: inj_onD)
      with w show "folderId (props z) = Val fid" by simp
    next
      assume "folderId (props z) = Val fid"
      with z show "ident z \<in> ident ` set ?ns"
        by (auto simp: getNotesByFolder_def)
    qed
    then show "(if ident z \<in> ident ` set ?ns then withoutFolder (clock (ident z)) z else z) =
               (if folderId (props z) = Val fid then withoutFolder (clock (ident z)) z else z)"
      by simp
  qed
  then show ?thesis
    by (simp add: deleteFolder_db_def Let_def fold_updateNote [OF assms] deleteItem_def)
qed

lemma deleteFolder_db_notes:
  assumes "keyed (rows (db_notes d))"
  shows "fst (deleteFolder_db clock fid d) = True \<and>
    map ident (rows (db_notes (snd (deleteFolder_db clock fid d)))) = map ident (rows (db_notes d)) \<and>
    (\<forall>n \<in> set (rows (db_notes d)).
       storeGet (ident n) (rows (db_notes (snd (deleteFolder_db clock fid d)))) =
         Some (if folderId (props n) = Val fid
               then n\<lparr>props := (props n)\<lparr>folderId := Null, updatedAt := Val (Time (clock (ident n)))\<rparr>\<rparr>
               else n)) \<and>
    storeGet fid (rows (db_folders (snd (deleteFolder_db clock fid d)))) = None"
proof -
  let ?h = "\<lambda>z. if folderId (props z) = Val fid then withoutFolder (clock (ident z)) z else z"
  let ?rows = "map ?h (rows (db_notes d))"
  have id: "ident (?h z) = ident z" for z :: "'a note_core_scheme entity"
    by (simp add: ident_withoutFolder)
  have k: "keyed ?rows"
    using assms keyed_map_same [of ?h "rows (db_notes d)"] id by simp
  have ids: "map ident ?rows = map ident (rows (db_notes d))"
    using id by (simp add: comp_def)
  have get: "storeGet (ident n) ?rows = Some (?h n)" if "n \<in> set (rows (db_notes d))" for n
    using storeGet_keyed [OF k, of "?h n"] that id [of n] by simp
  have del: "storeGet fid (storeDelete fid fs) = None" for fs :: "'b entity list"
    by (auto simp: storeGet_None storeDelete_def)
  show ?thesis
    using ids get del
    by (simp add: deleteFolder_db_eq [OF assms] withoutFolder_def)
qed

text \<open>
  \<open>deleteFolder\<close> of \<^verbatim>\<open>db.ts\<close> does what the specification asks of a folder deletion:
  it returns \<open>true\<close>, keeps every note under its identifier, writes \<^verbatim>\<open>folderId: null\<close>
  and the clock reading into the notes of the folder, leaves the other notes as they
  are, and removes the folder.
\<close>

theorem deleteFolder_db_reassigns_notes:
  assumes "keyed (rows (db_notes d))"
  shows "fst (deleteFolder_db clock fid d) = True \<and>
    map ident (rows (db_notes (snd (deleteFolder_db clock fid d)))) =
      map ident (rows (db_notes d)) \<and>
    (\<forall>n \<in> set (rows (db_notes d)).
       storeGet (ident n) (rows (db_notes (snd (deleteFolder_db clock fid d)))) =
         Some (if folderId (props n) = Val fid
               then n\<lparr>props := (props n)\<lparr>folderId := Null,
                                        updatedAt := Val (Time (clock (ident n)))\<rparr>\<rparr>
               else n)) \<and>
    storeGet fid (rows (db_folders (snd (deleteFolder_db clock fid d)))) = None"
  using deleteFolder_db_notes [OF assms] by blast

text \<open>
  Folder 3 with the notes 10 and 11, and note 12 in folder 4; the clock reads 1000 at
  the update of note 10 and 1001 at the update of note 11. The three notes are there
  afterwards, 10 and 11 without a folder, and folder 3 is gone.
\<close>

theorem deleteFolder_db_reassigns_notes_example:
  "map (\<lambda>k. storeGet k (rows (db_notes (snd (deleteFolder_db (\<lambda>k. 990 + k) 3
     (\<lparr>db_folders = \<lparr>rows = [\<lparr>ident = 3, props = ()\<rparr>, \<lparr>ident = 4, props = ()\<rparr>], idCounter = 5\<rparr>,
       db_notes = \<lparr>rows =
          [\<lparr>ident = 10, props = \<lparr>folderId = Val 3, updatedAt = Val (Time 1)\<rparr>\<rparr>,
           \<lparr>ident = 11, props = \<lparr>folderId = Val 3, updatedAt = Val (Time 2)\<rparr>\<rparr>,
           \<lparr>ident = 12, props = \<lparr>folderId = Val 4, updatedAt = Val (Time 3)\<rparr>\<rparr>],
          idCounter = 13\<rparr>,
       db_tags = \<lparr>rows = [], idCounter = 1\<rparr>,
       db_noteTags = \<lparr>rows = [], idCounter = 1\<rparr>\<rparr> :: (note_core, unit, unit) db))))))
     [10, 11, 12] =
     [Some \<lparr>ident = 10, props = \<lparr>folderId = Null, updatedAt = Val (Time 1000)\<rparr>\<rparr>,
      Some \<lparr>ident = 11, props = \<lparr>folderId = Null, updatedAt = Val (Time 1001)\<rparr>\<rparr>,
      Some \<lparr>ident = 12, props = \<lparr>folderId = Val 4, updatedAt = Val (Time 3)\<rparr>\<rparr>] \<and>
   storeGet 3 (rows (db_folders (snd (deleteFolder_db (\<lambda>k. 990 + k) 3
     (\<lparr>db_folders = \<lparr>rows = [\<lparr>ident = 3, props = ()\<rparr>, \<lparr>ident = 4, props = ()\<rparr>], idCounter = 5\<rparr>,
       db_notes = \<lparr>rows =
          [\<lparr>ident = 10, props = \<lparr>folderId = Val 3, updatedAt = Val (Time 1)\<rparr>\<rparr>,
           \<lparr>ident = 11, props = \<lparr>folderId = Val 3, updatedAt = Val (Time 2)\<rparr>\<rparr>,
           \<lparr>ident = 12, props = \<lparr>folderId = Val 4, updatedAt = Val (Time 3)\<rparr>\<rparr>],
          idCounter = 13\<rparr>,
       db_tags = \<lparr>rows = [], idCounter = 1\<rparr>,
       db_noteTags = \<lparr>rows = [], idCounter = 1\<rparr>\<rparr> :: (note_core, unit, unit) db))))) = None"
  using deleteFolder_db_reassigns_notes [of
     "\<lparr>db_folders = \<lparr>rows = [\<lparr>ident = 3, props = ()\<rparr>, \<lparr>ident = 4, props = ()\<rparr>], idCounter = 5\<rparr>,
       db_notes = \<lparr>rows =
          [\<lparr>ident = 10, props = \<lparr>folderId = Val 3, updatedAt = Val (Time 1)\<rparr>\<rparr>,
           \<lparr>ident = 11, props = \<lparr>folderId = Val 3, updatedAt = Val (Time 2)\<rparr>\<rparr>,
           \<lparr>ident = 12, props = \<lparr>folderId = Val 4, updatedAt = Val (Time 3)\<rparr>\<rparr>],
          idCounter = 13\<rparr>,
       db_tags = \<lparr>rows = [], idCounter = 1\<rparr>,
       db_noteTags = \<lparr>rows = [], idCounter = 1\<rparr>\<rparr> :: (note_core, unit, unit) db"
     "\<lambda>k. 990 + k" 3]
  by (simp add: keyed_def)

lemma deleteNotesTx_finished:
  "ns \<noteq> [] \<Longrightarrow> deleteNotesTx txFinished ns st = (Inl InvalidStateError, st)"
proof (cases ns)
  case Nil
  assume "ns \<noteq> []"
  with Nil show ?thesis by simp
next
  case (Cons n rest)
  let ?links = "filter (\<lambda>nt. noteId (props nt) = ident n) (lsRows (ls_noteTags st))"
  have "deleteNoteTagsTx True ?links st = (None, st) \<or>
        deleteNoteTagsTx True ?links st = (Some InvalidStateError, st)"
    by (cases ?links) (simp_all add: txObjectStore_def)
  with Cons show ?thesis
    by (auto simp: awaitOutside_def txObjectStore_def Let_def)
qed

text \<open>
  Claim C4 at \<open>deleteFolder\<close> of \<^verbatim>\<open>utils/storage.ts\<close>. When the folder holds a note,
  the call throws \<^verbatim>\<open>InvalidStateError\<close> at the first use of the finished transaction,
  and the database is as it was: the folder is still there, and its notes still refer
  to it. Only a folder without notes is deleted.
\<close>

theorem deleteFolder_ls_throws:
  "(filter (\<lambda>n. folderId (props n) = Val fid) (lsRows (ls_notes st)) \<noteq> [] \<longrightarrow>
      deleteFolder_ls fid st = (Inl InvalidStateError, st)) \<and>
   (filter (\<lambda>n. folderId (props n) = Val fid) (lsRows (ls_notes st)) = [] \<longrightarrow>
      deleteFolder_ls fid st = (Inr True, st\<lparr>ls_folders := lsDelete fid (ls_folders st)\<rparr>))"
  by (simp add: deleteFolder_ls_def Let_def deleteNotesTx_finished txObjectStore_def)

text \<open>
  The failing input: folder 3 that holds the notes 10 and 11. The call throws; folder 3
  is still in the store, and the notes 10 and 11 still have the folder reference 3.
\<close>

theorem deleteFolder_ls_throws_witness:
  "deleteFolder_ls 3
     (\<lparr>ls_notes = \<lparr>lsRows =
          [\<lparr>ident = 10, props = \<lparr>folderId = Val 3, updatedAt = Val (Time 1)\<rparr>\<rparr>,
           \<lparr>ident = 11, props = \<lparr>folderId = Val 3, updatedAt = Val (Time 2)\<rparr>\<rparr>],
          keyGen = 12\<rparr>,
       ls_folders = \<lparr>lsRows = [\<lparr>ident = 3, props = ()\<rparr>], keyGen = 4\<rparr>,
       ls_tags = \<lparr>lsRows = [], keyGen = 1\<rparr>,
       ls_noteTags = \<lparr>lsRows = [], keyGen = 1\<rparr>,
       ls_metadata = Map.empty\<rparr> :: (note_core, unit, unit) lsDb) =
   (Inl InvalidStateError,
    \<lparr>ls_notes = \<lparr>lsRows =
          [\<lparr>ident = 10, props = \<lparr>folderId = Val 3, updatedAt = Val (Time 1)\<rparr>\<rparr>,
           \<lparr>ident = 11, props = \<lparr>folderId = Val 3, updatedAt = Val (Time 2)\<rparr>\<rparr>],
          keyGen = 12\<rparr>,
       ls_folders = \<lparr>lsRows = [\<lparr>ident = 3, props = ()\<rparr>], keyGen = 4\<rparr>,
       ls_tags = \<lparr>lsRows = [], keyGen = 1\<rparr>,
       ls_noteTags = \<lparr>lsRows = [], keyGen = 1\<rparr>,
       ls_metadata = Map.empty\<rparr>)"
  using deleteFolder_ls_throws [of 3
     "\<lparr>ls_notes = \<lparr>lsRows =
          [\<lparr>ident = 10, props = \<lparr>folderId = Val 3, updatedAt = Val (Time 1)\<rparr>\<rparr>,
           \<lparr>ident = 11, props = \<lparr>folderId = Val 3, updatedAt = Val (Time 2)\<rparr>\<rparr>],
          keyGen = 12\<rparr>,
       ls_folders = \<lparr>lsRows = [\<lparr>ident = 3, props = ()\<rparr>], keyGen = 4\<rparr>,
       ls_tags = \<lparr>lsRows = [], keyGen = 1\<rparr>,
       ls_noteTags = \<lparr>lsRows = [], keyGen = 1\<rparr>,
       ls_metadata = Map.empty\<rparr> :: (note_core, unit, unit) lsDb"]
  by simp

section \<open>Merging a list with itself\<close>

text \<open>
  Claim C8. The lists that a pass merges are read with \<^verbatim>\<open>getAll\<close> from a store keyed by
  \<open>id\<close>: they are in key order, and no identifier occurs twice. Merging such a list
  with itself returns the list: the same records in the same order, none twice. The
  same holds for every list in which no two records share a positive identifier.
\<close>

theorem merge_self_distinct:
  "(keyed xs \<longrightarrow>
      mergeData upd xs xs = xs \<and> downloadAndMerge upd (Some xs) xs = xs \<and>
      set (mergeData upd xs xs) = set xs \<and> distinct (mergeData upd xs xs) \<and>
      set (downloadAndMerge upd (Some xs) xs) = set xs \<and>
      distinct (downloadAndMerge upd (Some xs) xs)) \<and>
   (distinct (map ident (filter (\<lambda>x. 0 < ident x) xs)) \<longrightarrow>
      mergeData upd xs xs = xs \<and> downloadAndMerge upd (Some xs) xs = xs)"
proof -
  have self: "mergeData upd xs xs = xs \<and> downloadAndMerge upd (Some xs) xs = xs"
    if d: "distinct (map ident (filter (\<lambda>x. 0 < ident x) xs))"
  proof -
    have "map (mergeLocalItem upd (positiveItemMap xs)) xs = xs"
      using positiveItemMap_distinct [OF d]
      by (intro map_idI mergeLocalItem_same) simp
    moreover have "filter (\<lambda>r. 0 < ident r \<and> allItemMap xs (ident r) = None) xs = []"
      by (auto simp: filter_empty_conv allItemMap_None)
    ultimately have "downloadAndMerge upd (Some xs) xs = xs"
      by (simp add: downloadAndMerge_def)
    then show ?thesis by (simp add: mergeData_eq_download)
  qed
  have "distinct (map ident (filter (\<lambda>x. 0 < ident x) xs)) \<and> distinct xs" if "keyed xs"
  proof
    from keyed_distinct [OF that]
    show "distinct (map ident (filter (\<lambda>x. 0 < ident x) xs))"
      by (rule distinct_map_filter)
    from keyed_distinct [OF that] show "distinct xs"
      by (simp add: distinct_map)
  qed
  with self show ?thesis by auto
qed

text \<open>The notes 1 and 2, as a store holds them, merged with themselves.\<close>

theorem merge_self_distinct_witness:
  "mergeData noteUpdatedAt
     [\<lparr>ident = 1, props = \<lparr>folderId = Val 1, updatedAt = Val (Time 5)\<rparr>\<rparr>,
      \<lparr>ident = 2, props = \<lparr>folderId = Val 2, updatedAt = Val (Time 5)\<rparr>\<rparr>]
     [\<lparr>ident = 1, props = \<lparr>folderId = Val 1, updatedAt = Val (Time 5)\<rparr>\<rparr>,
      \<lparr>ident = 2, props = \<lparr>folderId = Val 2, updatedAt = Val (Time 5)\<rparr>\<rparr>] =
     [\<lparr>ident = 1, props = \<lparr>folderId = Val 1, updatedAt = Val (Time 5)\<rparr>\<rparr>,
      \<lparr>ident = 2, props = \<lparr>folderId = Val 2, updatedAt = Val (Time 5)\<rparr>\<rparr>] \<and>
   downloadAndMerge noteUpdatedAt
     (Some [\<lparr>ident = 1, props = \<lparr>folderId = Val 1, updatedAt = Val (Time 5)\<rparr>\<rparr>,
            \<lparr>ident = 2, props = \<lparr>folderId = Val 2, updatedAt = Val (Time 5)\<rparr>\<rparr>])
     [\<lparr>ident = 1, props = \<lparr>folderId = Val 1, updatedAt = Val (Time 5)\<rparr>\<rparr>,
      \<lparr>ident = 2, props = \<lparr>folderId = Val 2, updatedAt = Val (Time 5)\<rparr>\<rparr>] =
     [\<lparr>ident = 1, props = \<lparr>folderId = Val 1, updatedAt = Val (Time 5)\<rparr>\<rparr>,
      \<lparr>ident = 2, props = \<lparr>folderId = Val 2, updatedAt = Val (Time 5)\<rparr>\<rparr>] \<and>
   distinct (mergeData noteUpdatedAt
     [\<lparr>ident = 1, props = \<lparr>folderId = Val 1, updatedAt = Val (Time 5)\<rparr>\<rparr>,
      \<lparr>ident = 2, props = \<lparr>folderId = Val 2, updatedAt = Val (Time 5)\<rparr>\<rparr>]
     [\<lparr>ident = 1, props = \<lparr>folderId = Val 1, updatedAt = Val (Time 5)\<rparr>\<rparr>,
      \<lparr>ident = 2, props = \<lparr>folderId = Val 2, updatedAt = Val (Time 5)\<rparr>\<rparr>])"
  using merge_self_distinct [of
     "[\<lparr>ident = 1, props = \<lparr>folderId = Val 1, updatedAt = Val (Time 5)\<rparr>\<rparr>,
       \<lparr>ident = 2, props = \<lparr>folderId = Val 2, updatedAt = Val (Time 5)\<rparr>\<rparr>]"
     noteUpdatedAt]
  by (simp add: keyed_def)

section \<open>Links after a full pass\<close>

lemma downloadAndMerge_ids:
  "knownIds localItems (orEmpty downloaded) \<subseteq>
   ident ` set (downloadAndMerge upd downloaded localItems)"
proof (cases downloaded)
  case None
  then show ?thesis by (simp add: knownIds_def orEmpty_def downloadAndMerge_def)
next
  case (Some remoteItems)
  have id: "ident (mergeLocalItem upd (positiveItemMap remoteItems) l) = ident l"
    for l :: "'a entity"
    by (rule mergeLocalItem_ident) (simp add: positiveItemMap_Some)
  have loc: "ident ` set localItems \<subseteq>
             ident ` set (downloadAndMerge upd (Some remoteItems) localItems)"
  proof
    fix k assume "k \<in> ident ` set localItems"
    then obtain l where l: "l \<in> set localItems" "k = ident l" by auto
    then have "mergeLocalItem upd (positiveItemMap remoteItems) l \<in>
               set (downloadAndMerge upd (Some remoteItems) localItems)"
      by (simp add: downloadAndMerge_def)
    with id [of l] l show "k \<in> ident ` set (downloadAndMerge upd (Some remoteItems) localItems)"
      by (metis imageI)
  qed
  have rem: "ident r \<in> ident ` set (downloadAndMerge upd (Some remoteItems) localItems)"
    if "r \<in> set remoteItems" "0 < ident r" for r
  proof (cases "ident r \<in> ident ` set localItems")
    case True
    with loc show ?thesis by blast
  next
    case False
    with that have "r \<in> set (downloadAndMerge upd (Some remoteItems) localItems)"
      by (simp add: downloadAndMerge_def allItemMap_None)
    then show ?thesis by (rule imageI)
  qed
  from loc rem Some show ?thesis
    by (auto simp: knownIds_def orEmpty_def)
qed

lemma downloadAndMerge_subset:
  "set (downloadAndMerge upd downloaded localItems) \<subseteq> set localItems \<union> set (orEmpty downloaded)"
  using downloadAndMerge_mem [of _ upd downloaded localItems]
  by (auto simp: orEmpty_def)

lemma noDanglingLinks_mono:
  "noDanglingLinks links N T \<Longrightarrow> set links' \<subseteq> set links \<Longrightarrow> N \<subseteq> N' \<Longrightarrow> T \<subseteq> T' \<Longrightarrow>
   noDanglingLinks links' N' T'"
  by (auto simp: noDanglingLinks_def)

lemma merged_links_closed:
  assumes "noDanglingLinks (localLinks @ orEmpty remoteLinks)
             (knownIds localNotes (orEmpty remoteNotes)) (knownIds localTags (orEmpty remoteTags))"
  shows "noDanglingLinks (downloadAndMerge updL remoteLinks localLinks)
           (ident ` set (downloadAndMerge updN remoteNotes localNotes))
           (ident ` set (downloadAndMerge updT remoteTags localTags))"
  using assms
proof (rule noDanglingLinks_mono)
  show "set (downloadAndMerge updL remoteLinks localLinks) \<subseteq> set (localLinks @ orEmpty remoteLinks)"
    using downloadAndMerge_subset [of updL remoteLinks localLinks] by simp
qed (rule downloadAndMerge_ids)+

text \<open>
  Claim C2, as the code has it. A full pass (no \<^verbatim>\<open>dataType\<close>) merges the links like
  every other kind and filters nothing: the merged links are \<open>mergeData\<close> (or
  \<open>downloadAndMerge\<close>) of the local and the remote links. When every local and every
  remote link references a note and a tag that the local side has, or that the remote
  side has under a positive identifier, every merged link references a merged note and a
  merged tag.
\<close>

theorem merged_links_reference_merged_entities:
  "(noDanglingLinks (noteTags_all localData @ orEmpty (noteTagsOpt remoteData))
      (knownIds (notes_all localData) (orEmpty (notesOpt remoteData)))
      (knownIds (tags_all localData) (orEmpty (tagsOpt remoteData))) \<longrightarrow>
    noDanglingLinks (orEmpty (noteTagsOpt (mergedSupabase None localData remoteData)))
      (ident ` set (orEmpty (notesOpt (mergedSupabase None localData remoteData))))
      (ident ` set (orEmpty (tagsOpt (mergedSupabase None localData remoteData))))) \<and>
   (noDanglingLinks (noteTags_all localData @ orEmpty (noteTagsFile srv))
      (knownIds (notes_all localData) (orEmpty (notesFile srv)))
      (knownIds (tags_all localData) (orEmpty (tagsFile srv))) \<longrightarrow>
    noDanglingLinks (orEmpty (noteTagsOpt (mergedWebDAV None localData srv)))
      (ident ` set (orEmpty (notesOpt (mergedWebDAV None localData srv))))
      (ident ` set (orEmpty (tagsOpt (mergedWebDAV None localData srv))))) \<and>
   noteTagsOpt (mergedSupabase None localData remoteData) =
     Some (mergeData noUpdatedAt (noteTags_all localData) (orEmpty (noteTagsOpt remoteData))) \<and>
   noteTagsOpt (mergedWebDAV None localData srv) =
     Some (downloadAndMerge noUpdatedAt (noteTagsFile srv) (noteTags_all localData))"
proof (intro conjI impI)
  assume "noDanglingLinks (noteTags_all localData @ orEmpty (noteTagsOpt remoteData))
      (knownIds (notes_all localData) (orEmpty (notesOpt remoteData)))
      (knownIds (tags_all localData) (orEmpty (tagsOpt remoteData)))"
  then have "noDanglingLinks
      (noteTags_all localData @ orEmpty (Some (orEmpty (noteTagsOpt remoteData))))
      (knownIds (notes_all localData) (orEmpty (Some (orEmpty (notesOpt remoteData)))))
      (knownIds (tags_all localData) (orEmpty (Some (orEmpty (tagsOpt remoteData)))))"
    by (simp add: orEmpty_def)
  from merged_links_closed [OF this, of noUpdatedAt noteUpdatedAt noUpdatedAt]
  show "noDanglingLinks (orEmpty (noteTagsOpt (mergedSupabase None localData remoteData)))
      (ident ` set (orEmpty (notesOpt (mergedSupabase None localData remoteData))))
      (ident ` set (orEmpty (tagsOpt (mergedSupabase None localData remoteData))))"
    by (simp add: mergedSupabase_def wanted_def mergeData_eq_download) (simp add: orEmpty_def)
next
  assume "noDanglingLinks (noteTags_all localData @ orEmpty (noteTagsFile srv))
      (knownIds (notes_all localData) (orEmpty (notesFile srv)))
      (knownIds (tags_all localData) (orEmpty (tagsFile srv)))"
  from merged_links_closed [OF this, of noUpdatedAt noteUpdatedAt noUpdatedAt]
  show "noDanglingLinks (orEmpty (noteTagsOpt (mergedWebDAV None localData srv)))
      (ident ` set (orEmpty (notesOpt (mergedWebDAV None localData srv))))
      (ident ` set (orEmpty (tagsOpt (mergedWebDAV None localData srv))))"
    by (simp add: mergedWebDAV_def wanted_def) (simp add: orEmpty_def)
qed (simp_all add: mergedSupabase_def mergedWebDAV_def wanted_def)

text \<open>
  Note 5, tag 9 and their link on the local side; note 6, tag 10 and their link on the
  remote side: every merged link has its note and its tag in the merged sets.
\<close>

theorem merged_links_reference_merged_entities_witness:
  "noDanglingLinks
     (orEmpty (noteTagsOpt (mergedSupabase None
        (\<lparr>notes_all = [\<lparr>ident = 5, props = \<lparr>folderId = Null, updatedAt = Val (Time 1)\<rparr>\<rparr>],
          folders_all = [], tags_all = [\<lparr>ident = 9, props = ()\<rparr>],
          noteTags_all = [\<lparr>ident = 1, props = \<lparr>noteId = 5, tagId = 9\<rparr>\<rparr>],
          metadata_all = Map.empty\<rparr> :: (note_core, unit, unit) allData)
        \<lparr>notesOpt = Some [\<lparr>ident = 6, props = \<lparr>folderId = Null, updatedAt = Val (Time 2)\<rparr>\<rparr>],
         foldersOpt = Some [], tagsOpt = Some [\<lparr>ident = 10, props = ()\<rparr>],
         noteTagsOpt = Some [\<lparr>ident = 2, props = \<lparr>noteId = 6, tagId = 10\<rparr>\<rparr>]\<rparr>)))
     (ident ` set (orEmpty (notesOpt (mergedSupabase None
        (\<lparr>notes_all = [\<lparr>ident = 5, props = \<lparr>folderId = Null, updatedAt = Val (Time 1)\<rparr>\<rparr>],
          folders_all = [], tags_all = [\<lparr>ident = 9, props = ()\<rparr>],
          noteTags_all = [\<lparr>ident = 1, props = \<lparr>noteId = 5, tagId = 9\<rparr>\<rparr>],
          metadata_all = Map.empty\<rparr> :: (note_core, unit, unit) allData)
        \<lparr>notesOpt = Some [\<lparr>ident = 6, props = \<lparr>folderId = Null, updatedAt = Val (Time 2)\<rparr>\<rparr>],
         foldersOpt = Some [], tagsOpt = Some [\<lparr>ident = 10, props = ()\<rparr>],
         noteTagsOpt = Some [\<lparr>ident = 2, props = \<lparr>noteId = 6, tagId = 10\<rparr>\<rparr>]\<rparr>))))
     (ident ` set (orEmpty (tagsOpt (mergedSupabase None
        (\<lparr>notes_all = [\<lparr>ident = 5, props = \<lparr>folderId = Null, updatedAt = Val (Time 1)\<rparr>\<rparr>],
          folders_all = [], tags_all = [\<lparr>ident = 9, props = ()\<rparr>],
          noteTags_all = [\<lparr>ident = 1, props = \<lparr>noteId = 5, tagId = 9\<rparr>\<rparr>],
          metadata_all = Map.empty\<rparr> :: (note_core, unit, unit) allData)
        \<lparr>notesOpt = Some [\<lparr>ident = 6, props = \<lparr>folderId = Null, updatedAt = Val (Time 2)\<rparr>\<rparr>],
         foldersOpt = Some [], tagsOpt = Some [\<lparr>ident = 10, props = ()\<rparr>],
         noteTagsOpt = Some [\<lparr>ident = 2, props = \<lparr>noteId = 6, tagId = 10\<rparr>\<rparr>]\<rparr>)))) \<and>
   noDanglingLinks
     (orEmpty (noteTagsOpt (mergedWebDAV None
        (\<lparr>notes_all = [\<lparr>ident = 5, props = \<lparr>folderId = Null, updatedAt = Val (Time 1)\<rparr>\<rparr>],
          folders_all = [], tags_all = [\<lparr>ident = 9, props = ()\<rparr>],
          noteTags_all = [\<lparr>ident = 1, props = \<lparr>noteId = 5, tagId = 9\<rparr>\<rparr>],
          metadata_all = Map.empty\<rparr> :: (note_core, unit, unit) allData)
        \<lparr>clientError = None,
         notesFile = Some [\<lparr>ident = 6, props = \<lparr>folderId = Null, updatedAt = Val (Time 2)\<rparr>\<rparr>],
         noteTagsFile = Some [\<lparr>ident = 2, props = \<lparr>noteId = 6, tagId = 10\<rparr>\<rparr>],
         foldersFile = None, tagsFile = Some [\<lparr>ident = 10, props = ()\<rparr>],
         putNotes = None, putNoteTags = None, putFolders = None, putTags = None\<rparr>)))
     (ident ` set (orEmpty (notesOpt (mergedWebDAV None
        (\<lparr>notes_all = [\<lparr>ident = 5, props = \<lparr>folderId = Null, updatedAt = Val (Time 1)\<rparr>\<rparr>],
          folders_all = [], tags_all = [\<lparr>ident = 9, props = ()\<rparr>],
          noteTags_all = [\<lparr>ident = 1, props = \<lparr>noteId = 5, tagId = 9\<rparr>\<rparr>],
          metadata_all = Map.empty\<rparr> :: (note_core, unit, unit) allData)
        \<lparr>clientError = None,
         notesFile = Some [\<lparr>ident = 6, props = \<lparr>folderId = Null, updatedAt = Val (Time 2)\<rparr>\<rparr>],
         noteTagsFile = Some [\<lparr>ident = 2, props = \<lparr>noteId = 6, tagId = 10\<rparr>\<rparr>],
         foldersFile = None, tagsFile = Some [\<lparr>ident = 10, props = ()\<rparr>],
         putNotes = None, putNoteTags = None, putFolders = None, putTags = None\<rparr>))))
     (ident ` set (orEmpty (tagsOpt (mergedWebDAV None
        (\<lparr>notes_all = [\<lparr>ident = 5, props = \<lparr>folderId = Null, updatedAt = Val (Time 1)\<rparr>\<rparr>],
          folders_all = [], tags_all = [\<lparr>ident = 9, props = ()\<rparr>],
          noteTags_all = [\<lparr>ident = 1, props = \<lparr>noteId = 5, tagId = 9\<rparr>\<rparr>],
          metadata_all = Map.empty\<rparr> :: (note_core, unit, unit) allData)
        \<lparr>clientError = None,
         notesFile = Some [\<lparr>ident = 6, props = \<lparr>folderId = Null, updatedAt = Val (Time 2)\<rparr>\<rparr>],
         noteTagsFile = Some [\<lparr>ident = 2, props = \<lparr>noteId = 6, tagId = 10\<rparr>\<rparr>],
         foldersFile = None, tagsFile = Some [\<lparr>ident = 10, props = ()\<rparr>],
         putNotes = None, putNoteTags = None, putFolders = None, putTags = None\<rparr>))))"
  (is "noDanglingLinks (orEmpty (noteTagsOpt (mergedSupabase None ?L ?R))) _ _ \<and>
       noDanglingLinks (orEmpty (noteTagsOpt (mergedWebDAV None _ ?S))) _ _")
proof -
  have "noDanglingLinks (noteTags_all ?L @ orEmpty (noteTagsOpt ?R))
      (knownIds (notes_all ?L) (orEmpty (notesOpt ?R)))
      (knownIds (tags_all ?L) (orEmpty (tagsOpt ?R)))"
    by (simp add: noDanglingLinks_def knownIds_def orEmpty_def)
  moreover have "noDanglingLinks (noteTags_all ?L @ orEmpty (noteTagsFile ?S))
      (knownIds (notes_all ?L) (orEmpty (notesFile ?S)))
      (knownIds (tags_all ?L) (orEmpty (tagsFile ?S)))"
    by (simp add: noDanglingLinks_def knownIds_def orEmpty_def)
  ultimately show ?thesis
    using merged_links_reference_merged_entities [of ?L ?R ?S] by blast
qed

text \<open>
  Claim C2 as stated fails. On the WebDAV side, the files of the notes and of the links
  are there and the file of the tags is not (a pass with \<^verbatim>\<open>dataType = 'notes'\<close> uploads
  just these two): the link of note 5 to tag 9 is merged, and no merged tag has the
  identifier 9. On the Supabase side, a local link to a tag that neither side has is kept.
\<close>

theorem merged_links_dangling_counterexample:
  "\<not> noDanglingLinks
     (orEmpty (noteTagsOpt (mergedWebDAV None
        (\<lparr>notes_all = [], folders_all = [], tags_all = [], noteTags_all = [],
          metadata_all = Map.empty\<rparr> :: (note_core, unit, unit) allData)
        \<lparr>clientError = None,
         notesFile = Some [\<lparr>ident = 5, props = \<lparr>folderId = Null, updatedAt = Val (Time 2)\<rparr>\<rparr>],
         noteTagsFile = Some [\<lparr>ident = 1, props = \<lparr>noteId = 5, tagId = 9\<rparr>\<rparr>],
         foldersFile = None, tagsFile = None,
         putNotes = None, putNoteTags = None, putFolders = None, putTags = None\<rparr>)))
     (ident ` set (orEmpty (notesOpt (mergedWebDAV None
        (\<lparr>notes_all = [], folders_all = [], tags_all = [], noteTags_all = [],
          metadata_all = Map.empty\<rparr> :: (note_core, unit, unit) allData)
        \<lparr>clientError = None,
         notesFile = Some [\<lparr>ident = 5, props = \<lparr>folderId = Null, updatedAt = Val (Time 2)\<rparr>\<rparr>],
         noteTagsFile = Some [\<lparr>ident = 1, props = \<lparr>noteId = 5, tagId = 9\<rparr>\<rparr>],
         foldersFile = None, tagsFile = None,
         putNotes = None, putNoteTags = None, putFolders = None, putTags = None\<rparr>))))
     (ident ` set (orEmpty (tagsOpt (mergedWebDAV None
        (\<lparr>notes_all = [], folders_all = [], tags_all = [], noteTags_all = [],
          metadata_all = Map.empty\<rparr> :: (note_core, unit, unit) allData)
        \<lparr>clientError = None,
         notesFile = Some [\<lparr>ident = 5, props = \<lparr>folderId = Null, updatedAt = Val (Time 2)\<rparr>\<rparr>],
         noteTagsFile = Some [\<lparr>ident = 1, props = \<lparr>noteId = 5, tagId = 9\<rparr>\<rparr>],
         foldersFile = None, tagsFile = None,
         putNotes = None, putNoteTags = None, putFolders = None, putTags = None\<rparr>)))) \<and>
   \<not> noDanglingLinks
     (orEmpty (noteTagsOpt (mergedSupabase None
        (\<lparr>notes_all = [\<lparr>ident = 5, props = \<lparr>folderId = Null, updatedAt = Val (Time 1)\<rparr>\<rparr>],
          folders_all = [], tags_all = [],
          noteTags_all = [\<lparr>ident = 1, props = \<lparr>noteId = 5, tagId = 9\<rparr>\<rparr>],
          metadata_all = Map.empty\<rparr> :: (note_core, unit, unit) allData)
        \<lparr>notesOpt = Some [], foldersOpt = Some [], tagsOpt = Some [], noteTagsOpt = Some []\<rparr>)))
     (ident ` set (orEmpty (notesOpt (mergedSupabase None
        (\<lparr>notes_all = [\<lparr>ident = 5, props = \<lparr>folderId = Null, updatedAt = Val (Time 1)\<rparr>\<rparr>],
          folders_all = [], tags_all = [],
          noteTags_all = [\<lparr>ident = 1, props = \<lparr>noteId = 5, tagId = 9\<rparr>\<rparr>],
          metadata_all = Map.empty\<rparr> :: (note_core, unit, unit) allData)
        \<lparr>notesOpt = Some [], foldersOpt = Some [], tagsOpt = Some [], noteTagsOpt = Some []\<rparr>))))
     (ident ` set (orEmpty (tagsOpt (mergedSupabase None
        (\<lparr>notes_all = [\<lparr>ident = 5, props = \<lparr>folderId = Null, updatedAt = Val (Time 1)\<rparr>\<rparr>],
          folders_all = [], tags_all = [],
          noteTags_all = [\<lparr>ident = 1, props = \<lparr>noteId = 5, tagId = 9\<rparr>\<rparr>],
          metadata_all = Map.empty\<rparr> :: (note_core, unit, unit) allData)
        \<lparr>notesOpt = Some [], foldersOpt = Some [], tagsOpt = Some [], noteTagsOpt = Some []\<rparr>))))"
  by (simp add: noDanglingLinks_def mergedWebDAV_def mergedSupabase_def wanted_def orEmpty_def
      downloadAndMerge_def mergeData_def positiveItemMap_def allItemMap_def mergeLocalItem_def)

section \<open>A pass that fails\<close>

lemma keyed_storePut: "keyed xs \<Longrightarrow> keyed (storePut x xs)"
proof (induction xs)
  case Nil
  then show ?case by (simp add: keyed_def)
next
  case (Cons y ys)
  from Cons.prems have less: "\<forall>w \<in> set ys. ident y < ident w" and ky: "keyed ys"
    by (simp_all add: keyed_Cons)
  show ?case
  proof (cases "ident x < ident y")
    case True
    with less have "\<forall>w \<in> set (y # ys). ident x < ident w" by auto
    with True Cons.prems show ?thesis by (simp add: keyed_Cons)
  next
    case False
    show ?thesis
    proof (cases "ident x = ident y")
      case True
      with less ky show ?thesis by (simp add: keyed_Cons)
    next
      case ne: False
      with False have "ident y < ident x" by simp
      with less set_storePut [of x ys] have "\<forall>w \<in> set (storePut x ys). ident y < ident w"
        by auto
      with False ne Cons.IH [OF ky] show ?thesis by (simp add: keyed_Cons)
    qed
  qed
qed

lemma find_append_first:
  "find P (xs @ ys) = (case find P xs of None \<Rightarrow> find P ys | Some x \<Rightarrow> Some x)"
  by (induction xs) simp_all

lemma lsRows_lsPutEntity: "lsRows (lsPutEntity x s) = storePut x (lsRows s)"
  by (simp add: lsPutEntity_def Let_def)

lemma fold_lsPutEntity:
  "storeGet k (lsRows (fold lsPutEntity xs s)) = heldAfterImport k xs (lsRows s)"
proof (induction xs arbitrary: s)
  case Nil
  show ?case by (simp add: heldAfterImport_def)
next
  case (Cons x xs)
  show ?case
    by (simp add: Cons.IH heldAfterImport_def lsRows_lsPutEntity storeGet_storePut_other
        find_append_first split: option.splits)
qed

lemma keyed_fold_lsPutEntity:
  "keyed (lsRows s) \<Longrightarrow> keyed (lsRows (fold lsPutEntity xs s))"
  by (induction xs arbitrary: s) (simp_all add: lsRows_lsPutEntity keyed_storePut)

lemma putAll_held:
  "storeGet k (lsRows (putAll items s)) = heldAfterImport k (orEmpty items) (lsRows s)"
proof (cases items)
  case None
  then show ?thesis by (simp add: putAll_def orEmpty_def heldAfterImport_def)
next
  case (Some xs)
  then show ?thesis
    by (cases "xs = []") (simp_all add: putAll_def orEmpty_def fold_lsPutEntity heldAfterImport_def)
qed

lemma putAll_keyed: "keyed (lsRows s) \<Longrightarrow> keyed (lsRows (putAll items s))"
  by (simp add: putAll_def keyed_fold_lsPutEntity split: option.splits)

text \<open>
  After \<open>importAllData\<close> each store holds, under every key, the last record of the
  imported list with that key, or else what it held before; the metadata are as before.
\<close>

lemma importAllData_held:
  "storeGet k (lsRows (ls_notes (importAllData data st))) =
     heldAfterImport k (orEmpty (notesOpt data)) (lsRows (ls_notes st)) \<and>
   storeGet k (lsRows (ls_folders (importAllData data st))) =
     heldAfterImport k (orEmpty (foldersOpt data)) (lsRows (ls_folders st)) \<and>
   storeGet k (lsRows (ls_tags (importAllData data st))) =
     heldAfterImport k (orEmpty (tagsOpt data)) (lsRows (ls_tags st)) \<and>
   storeGet k (lsRows (ls_noteTags (importAllData data st))) =
     heldAfterImport k (orEmpty (noteTagsOpt data)) (lsRows (ls_noteTags st)) \<and>
   ls_metadata (importAllData data st) = ls_metadata st"
  by (simp add: importAllData_def putAll_held)

lemma importAllData_keyed:
  "keyed (lsRows (ls_notes st)) \<Longrightarrow> keyed (lsRows (ls_notes (importAllData data st)))"
  by (simp add: importAllData_def putAll_keyed)

lemma syncWithSupabase_throws:
  assumes "syncWithSupabase user dt api now st = (Inl e, st')"
  shows "(case fetchSupabase dt api of
            Inl e' \<Rightarrow> e = e' \<and> st' = st
          | Inr remoteData \<Rightarrow>
              uploadSupabase dt api = Some e \<and>
              st' = importAllData (mergedSupabase dt (exportAllData st) remoteData) st)"
  using assms
  by (auto simp: syncWithSupabase_def Let_def split: if_splits sum.splits option.splits)

lemma syncWithWebDAV_throws:
  assumes "syncWithWebDAV enabled dt srv now st = (Inl e, st')"
  shows "(case clientError srv of
            Some e' \<Rightarrow> e = e' \<and> st' = st
          | None \<Rightarrow>
              uploadWebDAV dt srv = Some e \<and>
              st' = importAllData (mergedWebDAV dt (exportAllData st) srv) st)"
  using assms
  by (auto simp: syncWithWebDAV_def Let_def split: if_splits sum.splits option.splits)

text \<open>
  Claim C3, as the code has it. A pass that throws leaves the local database as it was
  when it fails before the merge: at a request of \<open>syncWithSupabase\<close> for the remote
  data, or at \<^verbatim>\<open>getWebDAVClient\<close> in \<open>syncWithWebDAV\<close>. A pass that throws at an
  upload has imported the merged data before: under every key, each store of the local
  database then holds the merged record with that key (the last one, should the merged
  list have several), or the record it held before when no merged record has the key;
  the notes are still in key order, and the metadata are as before.
\<close>

theorem failed_sync_local_database:
  "(syncWithSupabase user dt api now st = (Inl e, st') \<longrightarrow>
      (case fetchSupabase dt api of
         Inl e' \<Rightarrow> e = e' \<and> st' = st
       | Inr remoteData \<Rightarrow>
           uploadSupabase dt api = Some e \<and>
           (\<forall>k. storeGet k (lsRows (ls_notes st')) =
                  heldAfterImport k
                    (orEmpty (notesOpt (mergedSupabase dt (exportAllData st) remoteData)))
                    (lsRows (ls_notes st)) \<and>
                storeGet k (lsRows (ls_folders st')) =
                  heldAfterImport k
                    (orEmpty (foldersOpt (mergedSupabase dt (exportAllData st) remoteData)))
                    (lsRows (ls_folders st)) \<and>
                storeGet k (lsRows (ls_tags st')) =
                  heldAfterImport k
                    (orEmpty (tagsOpt (mergedSupabase dt (exportAllData st) remoteData)))
                    (lsRows (ls_tags st)) \<and>
                storeGet k (lsRows (ls_noteTags st')) =
                  heldAfterImport k
                    (orEmpty (noteTagsOpt (mergedSupabase dt (exportAllData st) remoteData)))
                    (lsRows (ls_noteTags st))) \<and>
           (keyed (lsRows (ls_notes st)) \<longrightarrow> keyed (lsRows (ls_notes st'))) \<and>
           ls_metadata st' = ls_metadata st)) \<and>
   (syncWithWebDAV enabled dt srv now st = (Inl e, st') \<longrightarrow>
      (case clientError srv of
         Some e' \<Rightarrow> e = e' \<and> st' = st
       | None \<Rightarrow>
           uploadWebDAV dt srv = Some e \<and>
           (\<forall>k. storeGet k (lsRows (ls_notes st')) =
                  heldAfterImport k
                    (orEmpty (notesOpt (mergedWebDAV dt (exportAllData st) srv)))
                    (lsRows (ls_notes st)) \<and>
                storeGet k (lsRows (ls_folders st')) =
                  heldAfterImport k
                    (orEmpty (foldersOpt (mergedWebDAV dt (exportAllData st) srv)))
                    (lsRows (ls_folders st)) \<and>
                storeGet k (lsRows (ls_tags st')) =
                  heldAfterImport k
                    (orEmpty (tagsOpt (mergedWebDAV dt (exportAllData st) srv)))
                    (lsRows (ls_tags st)) \<and>
                storeGet k (lsRows (ls_noteTags st')) =
                  heldAfterImport k
                    (orEmpty (noteTagsOpt (mergedWebDAV dt (exportAllData st) srv)))
                    (lsRows (ls_noteTags st))) \<and>
           (keyed (lsRows (ls_notes st)) \<longrightarrow> keyed (lsRows (ls_notes st'))) \<and>
           ls_metadata st' = ls_metadata st))"
proof (intro conjI impI)
  assume a: "syncWithSupabase user dt api now st = (Inl e, st')"
  show "case fetchSupabase dt api of
         Inl e' \<Rightarrow> e = e' \<and> st' = st
       | Inr remoteData \<Rightarrow>
           uploadSupabase dt api = Some e \<and>
           (\<forall>k. storeGet k (lsRows (ls_notes st')) =
                  heldAfterImport k
                    (orEmpty (notesOpt (mergedSupabase dt (exportAllData st) remoteData)))
                    (lsRows (ls_notes st)) \<and>
                storeGet k (lsRows (ls_folders st')) =
                  heldAfterImport k
                    (orEmpty (foldersOpt (mergedSupabase dt (exportAllData st) remoteData)))
                    (lsRows (ls_folders st)) \<and>
                storeGet k (lsRows (ls_tags st')) =
                  heldAfterImport k
                    (orEmpty (tagsOpt (mergedSupabase dt (exportAllData st) remoteData)))
                    (lsRows (ls_tags st)) \<and>
                storeGet k (lsRows (ls_noteTags st')) =
                  heldAfterImport k
                    (orEmpty (noteTagsOpt (mergedSupabase dt (exportAllData st) remoteData)))
                    (lsRows (ls_noteTags st))) \<and>
           (keyed (lsRows (ls_notes st)) \<longrightarrow> keyed (lsRows (ls_notes st'))) \<and>
           ls_metadata st' = ls_metadata st"
  proof (cases "fetchSupabase dt api")
    case (Inl e')
    with syncWithSupabase_throws [OF a] show ?thesis by simp
  next
    case (Inr remoteData)
    with syncWithSupabase_throws [OF a]
    have "uploadSupabase dt api = Some e"
      and "st' = importAllData (mergedSupabase dt (exportAllData st) remoteData) st"
      by simp_all
    with Inr show ?thesis
      by (simp add: importAllData_held importAllData_keyed)
  qed
next
  assume a: "syncWithWebDAV enabled dt srv now st = (Inl e, st')"
  show "case clientError srv of
         Some e' \<Rightarrow> e = e' \<and> st' = st
       | None \<Rightarrow>
           uploadWebDAV dt srv = Some e \<and>
           (\<forall>k. storeGet k (lsRows (ls_notes st')) =
                  heldAfterImport k
                    (orEmpty (notesOpt (mergedWebDAV dt (exportAllData st) srv)))
                    (lsRows (ls_notes st)) \<and>
                storeGet k (lsRows (ls_folders st')) =
                  heldAfterImport k
                    (orEmpty (foldersOpt (mergedWebDAV dt (exportAllData st) srv)))
                    (lsRows (ls_folders st)) \<and>
                storeGet k (lsRows (ls_tags st')) =
                  heldAfterImport k
                    (orEmpty (tagsOpt (mergedWebDAV dt (exportAllData st) srv)))
                    (lsRows (ls_tags st)) \<and>
                storeGet k (lsRows (ls_noteTags st')) =
                  heldAfterImport k
                    (orEmpty (noteTagsOpt (mergedWebDAV dt (exportAllData st) srv)))
                    (lsRows (ls_noteTags st))) \<and>
           (keyed (lsRows (ls_notes st)) \<longrightarrow> keyed (lsRows (ls_notes st'))) \<and>
           ls_metadata st' = ls_metadata st"
  proof (cases "clientError srv")
    case (Some e')
    with syncWithWebDAV_throws [OF a] show ?thesis by simp
  next
    case None
    with syncWithWebDAV_throws [OF a]
    have "uploadWebDAV dt srv = Some e"
      and "st' = importAllData (mergedWebDAV dt (exportAllData st) srv) st"
      by simp_all
    with None show ?thesis
      by (simp add: importAllData_held importAllData_keyed)
  qed
qed

text \<open>
  The local database holds the notes 1 and 2. In the Supabase pass the remote side has a
  newer note 1 and a note 3, and the upload of the notes fails: the pass throws, and the
  local database holds the remote note 1, its own note 2 and the remote note 3. In the
  WebDAV pass the client cannot be obtained: the pass throws and the database is as
  before.
\<close>

theorem failed_sync_local_database_witness:
  "fst (syncWithSupabase (Some 1) None
     \<lparr>getNotes = Inr [\<lparr>ident = 1, props = \<lparr>folderId = Val 4, updatedAt = Val (Time 9)\<rparr>\<rparr>,
                       \<lparr>ident = 3, props = \<lparr>folderId = Null, updatedAt = Val (Time 7)\<rparr>\<rparr>],
       getNoteTags = Inr [], getFolders = Inr [], getTags = Inr [],
       postNotes = Some (Error ''offline''), postFolders = None, postTags = None\<rparr> 1000
     (\<lparr>ls_notes = \<lparr>lsRows =
          [\<lparr>ident = 1, props = \<lparr>folderId = Null, updatedAt = Val (Time 5)\<rparr>\<rparr>,
           \<lparr>ident = 2, props = \<lparr>folderId = Null, updatedAt = Val (Time 6)\<rparr>\<rparr>], keyGen = 3\<rparr>,
       ls_folders = \<lparr>lsRows = [], keyGen = 1\<rparr>,
       ls_tags = \<lparr>lsRows = [], keyGen = 1\<rparr>, ls_noteTags = \<lparr>lsRows = [], keyGen = 1\<rparr>,
       ls_metadata = Map.empty\<rparr> :: (note_core, unit, unit) lsDb)) = Inl (Error ''offline'') \<and>
   map (\<lambda>k. storeGet k (lsRows (ls_notes (snd (syncWithSupabase (Some 1) None
     \<lparr>getNotes = Inr [\<lparr>ident = 1, props = \<lparr>folderId = Val 4, updatedAt = Val (Time 9)\<rparr>\<rparr>,
                       \<lparr>ident = 3, props = \<lparr>folderId = Null, updatedAt = Val (Time 7)\<rparr>\<rparr>],
       getNoteTags = Inr [], getFolders = Inr [], getTags = Inr [],
       postNotes = Some (Error ''offline''), postFolders = None, postTags = None\<rparr> 1000
     (\<lparr>ls_notes = \<lparr>lsRows =
          [\<lparr>ident = 1, props = \<lparr>folderId = Null, updatedAt = Val (Time 5)\<rparr>\<rparr>,
           \<lparr>ident = 2, props = \<lparr>folderId = Null, updatedAt = Val (Time 6)\<rparr>\<rparr>], keyGen = 3\<rparr>,
       ls_folders = \<lparr>lsRows = [], keyGen = 1\<rparr>,
       ls_tags = \<lparr>lsRows = [], keyGen = 1\<rparr>, ls_noteTags = \<lparr>lsRows = [], keyGen = 1\<rparr>,
       ls_metadata = Map.empty\<rparr> :: (note_core, unit, unit) lsDb)))))) [1, 2, 3, 4] =
     [Some \<lparr>ident = 1, props = \<lparr>folderId = Val 4, updatedAt = Val (Time 9)\<rparr>\<rparr>,
      Some \<lparr>ident = 2, props = \<lparr>folderId = Null, updatedAt = Val (Time 6)\<rparr>\<rparr>,
      Some \<lparr>ident = 3, props = \<lparr>folderId = Null, updatedAt = Val (Time 7)\<rparr>\<rparr>,
      None] \<and>
   syncWithWebDAV True None
     \<lparr>clientError = Some (Error ''offline''),
       notesFile = Some [\<lparr>ident = 1, props = \<lparr>folderId = Val 4, updatedAt = Val (Time 9)\<rparr>\<rparr>],
       noteTagsFile = None, foldersFile = None, tagsFile = None,
       putNotes = None, putNoteTags = None, putFolders = None, putTags = None\<rparr> 1000
     (\<lparr>ls_notes = \<lparr>lsRows =
          [\<lparr>ident = 1, props = \<lparr>folderId = Null, updatedAt = Val (Time 5)\<rparr>\<rparr>,
           \<lparr>ident = 2, props = \<lparr>folderId = Null, updatedAt = Val (Time 6)\<rparr>\<rparr>], keyGen = 3\<rparr>,
       ls_folders = \<lparr>lsRows = [], keyGen = 1\<rparr>,
       ls_tags = \<lparr>lsRows = [], keyGen = 1\<rparr>, ls_noteTags = \<lparr>lsRows = [], keyGen = 1\<rparr>,
       ls_metadata = Map.empty\<rparr> :: (note_core, unit, unit) lsDb) =
   (Inl (Error ''offline''),
     \<lparr>ls_notes = \<lparr>lsRows =
          [\<lparr>ident = 1, props = \<lparr>folderId = Null, updatedAt = Val (Time 5)\<rparr>\<rparr>,
           \<lparr>ident = 2, props = \<lparr>folderId = Null, updatedAt = Val (Time 6)\<rparr>\<rparr>], keyGen = 3\<rparr>,
       ls_folders = \<lparr>lsRows = [], keyGen = 1\<rparr>,
       ls_tags = \<lparr>lsRows = [], keyGen = 1\<rparr>, ls_noteTags = \<lparr>lsRows = [], keyGen = 1\<rparr>,
       ls_metadata = Map.empty\<rparr>)"
  (is "fst (syncWithSupabase ?u None ?api ?now ?st) = Inl ?e \<and>
       map (\<lambda>k. storeGet k (lsRows (ls_notes (snd _)))) _ = _ \<and>
       syncWithWebDAV True None ?srv ?now ?st = (Inl ?e, ?st)")
proof -
  let ?st' = "snd (syncWithSupabase ?u None ?api ?now ?st)"
  let ?remoteData = "\<lparr>notesOpt = Some [\<lparr>ident = 1, props = \<lparr>folderId = Val 4, updatedAt = Val (Time 9)\<rparr>\<rparr>,
                       \<lparr>ident = 3, props = \<lparr>folderId = Null, updatedAt = Val (Time 7)\<rparr>\<rparr>],
       foldersOpt = Some [], tagsOpt = Some [], noteTagsOpt = Some []\<rparr>
     :: (note_core, unit, unit) partialData"
  have f: "fetchSupabase None ?api = Inr ?remoteData"
    by (simp add: fetchSupabase_def wanted_def)
  have a: "fst (syncWithSupabase ?u None ?api ?now ?st) = Inl ?e"
    by (simp add: syncWithSupabase_def f uploadSupabase_def wanted_def Let_def)
  have m: "orEmpty (notesOpt (mergedSupabase None (exportAllData ?st) ?remoteData)) =
        [\<lparr>ident = 1, props = \<lparr>folderId = Val 4, updatedAt = Val (Time 9)\<rparr>\<rparr>,
         \<lparr>ident = 2, props = \<lparr>folderId = Null, updatedAt = Val (Time 6)\<rparr>\<rparr>,
         \<lparr>ident = 3, props = \<lparr>folderId = Null, updatedAt = Val (Time 7)\<rparr>\<rparr>]"
    by (simp add: mergedSupabase_def exportAllData_def wanted_def orEmpty_def mergeData_def
        positiveItemMap_def mergeLocalItem_def noteUpdatedAt_def Let_def)
  from failed_sync_local_database [of ?u None ?api ?now ?st ?e ?st'] a f
  have "\<forall>k. storeGet k (lsRows (ls_notes ?st')) =
          heldAfterImport k
            (orEmpty (notesOpt (mergedSupabase None (exportAllData ?st) ?remoteData)))
            (lsRows (ls_notes ?st))"
    by (simp add: prod_eq_iff)
  then have held: "map (\<lambda>k. storeGet k (lsRows (ls_notes ?st'))) [1, 2, 3, 4] =
     [Some \<lparr>ident = 1, props = \<lparr>folderId = Val 4, updatedAt = Val (Time 9)\<rparr>\<rparr>,
      Some \<lparr>ident = 2, props = \<lparr>folderId = Null, updatedAt = Val (Time 6)\<rparr>\<rparr>,
      Some \<lparr>ident = 3, props = \<lparr>folderId = Null, updatedAt = Val (Time 7)\<rparr>\<rparr>,
      None]"
    by (simp add: m heldAfterImport_def storeGet_def)
  have b: "fst (syncWithWebDAV True None ?srv ?now ?st) = Inl ?e"
    by (simp add: syncWithWebDAV_def)
  from failed_sync_local_database
         [of _ _ _ ?now ?st ?e "snd (syncWithWebDAV True None ?srv ?now ?st)" True ?srv] b
  have "snd (syncWithWebDAV True None ?srv ?now ?st) = ?st"
    by (simp add: prod_eq_iff)
  with a held b show ?thesis by (simp add: prod_eq_iff)
qed

text \<open>
  Claim C3 as stated fails when the upload fails. The local database holds note 1; the
  remote side has a newer note 1 and a note 2. The merged notes are imported, then the
  upload throws: the pass has failed, and the local database holds the remote notes 1
  and 2.
\<close>

theorem failed_sync_changes_local_counterexample:
  "syncWithSupabase (Some 1) None
     \<lparr>getNotes = Inr [\<lparr>ident = 1, props = \<lparr>folderId = Null, updatedAt = Val (Time 7)\<rparr>\<rparr>,
                       \<lparr>ident = 2, props = \<lparr>folderId = Null, updatedAt = Val (Time 8)\<rparr>\<rparr>],
       getNoteTags = Inr [], getFolders = Inr [], getTags = Inr [],
       postNotes = Some (Error ''offline''), postFolders = None, postTags = None\<rparr> 1000
     (\<lparr>ls_notes = \<lparr>lsRows = [\<lparr>ident = 1, props = \<lparr>folderId = Null, updatedAt = Val (Time 5)\<rparr>\<rparr>],
                   keyGen = 2\<rparr>,
       ls_folders = \<lparr>lsRows = [], keyGen = 1\<rparr>,
       ls_tags = \<lparr>lsRows = [], keyGen = 1\<rparr>, ls_noteTags = \<lparr>lsRows = [], keyGen = 1\<rparr>,
       ls_metadata = Map.empty\<rparr> :: (note_core, unit, unit) lsDb) =
   (Inl (Error ''offline''),
     \<lparr>ls_notes = \<lparr>lsRows = [\<lparr>ident = 1, props = \<lparr>folderId = Null, updatedAt = Val (Time 7)\<rparr>\<rparr>,
                            \<lparr>ident = 2, props = \<lparr>folderId = Null, updatedAt = Val (Time 8)\<rparr>\<rparr>],
                  keyGen = 3\<rparr>,
      ls_folders = \<lparr>lsRows = [], keyGen = 1\<rparr>,
      ls_tags = \<lparr>lsRows = [], keyGen = 1\<rparr>, ls_noteTags = \<lparr>lsRows = [], keyGen = 1\<rparr>,
      ls_metadata = Map.empty\<rparr>) \<and>
   syncWithWebDAV True None
     \<lparr>clientError = None,
       notesFile = Some [\<lparr>ident = 1, props = \<lparr>folderId = Null, updatedAt = Val (Time 7)\<rparr>\<rparr>,
                         \<lparr>ident = 2, props = \<lparr>folderId = Null, updatedAt = Val (Time 8)\<rparr>\<rparr>],
       noteTagsFile = None, foldersFile = None, tagsFile = None,
       putNotes = Some (Error ''offline''), putNoteTags = None, putFolders = None,
       putTags = None\<rparr> 1000
     (\<lparr>ls_notes = \<lparr>lsRows = [\<lparr>ident = 1, props = \<lparr>folderId = Null, updatedAt = Val (Time 5)\<rparr>\<rparr>],
                   keyGen = 2\<rparr>,
       ls_folders = \<lparr>lsRows = [], keyGen = 1\<rparr>,
       ls_tags = \<lparr>lsRows = [], keyGen = 1\<rparr>, ls_noteTags = \<lparr>lsRows = [], keyGen = 1\<rparr>,
       ls_metadata = Map.empty\<rparr> :: (note_core, unit, unit) lsDb) =
   (Inl (Error ''offline''),
     \<lparr>ls_notes = \<lparr>lsRows = [\<lparr>ident = 1, props = \<lparr>folderId = Null, updatedAt = Val (Time 7)\<rparr>\<rparr>,
                            \<lparr>ident = 2, props = \<lparr>folderId = Null, updatedAt = Val (Time 8)\<rparr>\<rparr>],
                  keyGen = 3\<rparr>,
      ls_folders = \<lparr>lsRows = [], keyGen = 1\<rparr>,
      ls_tags = \<lparr>lsRows = [], keyGen = 1\<rparr>, ls_noteTags = \<lparr>lsRows = [], keyGen = 1\<rparr>,
      ls_metadata = Map.empty\<rparr>)"
  by (simp add: syncWithSupabase_def syncWithWebDAV_def fetchSupabase_def uploadSupabase_def
      uploadWebDAV_def wanted_def mergedSupabase_def mergedWebDAV_def exportAllData_def
      importAllData_def putAll_def lsPutEntity_def orEmpty_def mergeData_def
      downloadAndMerge_def positiveItemMap_def allItemMap_def mergeLocalItem_def
      noteUpdatedAt_def Let_def)

end
